theory Spec2Isabelle
  imports Complex_Main "HOL-Library.Product_Lexorder"
begin

section \<open>Shared vocabulary\<close>

text \<open>
  Exceptions of the Python code are values. \<open>str_of\<close> is Python's \<open>str(e)\<close>: the
  message the exception was built with.
\<close>

datatype error =
    RuntimeError string
  | ValueError string
  | OperationalError string
  | HTTPError string
  | OSError string
  | ValidationError string

fun str_of :: "error \<Rightarrow> string" where
  "str_of (RuntimeError m) = m"
| "str_of (ValueError m) = m"
| "str_of (OperationalError m) = m"
| "str_of (HTTPError m) = m"
| "str_of (OSError m) = m"
| "str_of (ValidationError m) = m"

text \<open>
  \<open>s.replace("Z", "+00:00")\<close>: every occurrence of the one-character pattern is replaced.
\<close>

definition replace_Z :: "string \<Rightarrow> string" where
  "replace_Z s = concat (map (\<lambda>c. if c = CHR ''Z'' then ''+00:00'' else [c]) s)"

text \<open>\<open>sep.join(xs)\<close>.\<close>

fun join :: "string \<Rightarrow> string list \<Rightarrow> string" where
  "join sep [] = []"
| "join sep [x] = x"
| "join sep (x # y # ys) = x @ sep @ join sep (y # ys)"

text \<open>The decimal text of a non-negative count, as an f-string prints it.\<close>

definition digit_char :: "nat \<Rightarrow> char" where
  "digit_char d = ''0123456789'' ! d"

fun str_nat :: "nat \<Rightarrow> string" where
  "str_nat n = (if n < 10 then [digit_char n] else str_nat (n div 10) @ [digit_char (n mod 10)])"

declare str_nat.simps [simp del]

section \<open>The ETL side: \<open>src/etl\<close>\<close>

text \<open>
  A timestamp of the ETL side is an instant: microseconds since the epoch, UTC. This is
  what an offset-carrying ISO-8601 string parses to and what the timestamp columns hold.
\<close>

type_synonym timestamp = int

text \<open>
  One element of the JSON array the source API answers with. The fields and their types
  are those of the \<open>LoanApplication\<close> model of \<open>services/api/app/main.py\<close>;
  \<open>submitted_at\<close> is still the ISO-8601 text of the wire.
\<close>

record raw_record =
  r_application_id :: string
  r_applicant_id :: string
  r_submitted_at :: string
  r_loan_amount :: real
  r_purpose :: string
  r_state :: string
  r_annual_income :: real

text \<open>
  Modelled from the spec: the DDL of \<open>staging.loan_applications\<close> is not part of the
  sources. A row has the columns the INSERT of \<open>upsert_staging\<close> names (the spec's
  \<open>staging_records(application_id unique, ...)\<close>); the quality gate tests every column
  for NULL, so every column is nullable here.
\<close>

record staging_row =
  application_id :: "string option"
  applicant_id :: "string option"
  submitted_at :: "timestamp option"
  loan_amount :: "real option"
  purpose :: "string option"
  state :: "string option"
  annual_income :: "real option"

subsection \<open>\<open>quality.py\<close>\<close>

record QualityResult =
  passed :: bool
  failures :: "string list"

text \<open>
  The WHERE clauses of the four checks. A comparison with NULL is not true in SQL, so a
  NULL amount or timestamp is not counted by the comparison checks.
\<close>

definition null_required_fields :: "staging_row \<Rightarrow> bool" where
  "null_required_fields x =
     (application_id x = None \<or> applicant_id x = None \<or> submitted_at x = None
      \<or> loan_amount x = None \<or> purpose x = None \<or> state x = None
      \<or> annual_income x = None)"

definition loan_amount_positive :: "staging_row \<Rightarrow> bool" where
  "loan_amount_positive x = (case loan_amount x of None \<Rightarrow> False | Some a \<Rightarrow> a \<le> 0)"

definition annual_income_positive :: "staging_row \<Rightarrow> bool" where
  "annual_income_positive x = (case annual_income x of None \<Rightarrow> False | Some a \<Rightarrow> a \<le> 0)"

definition five_minutes :: int where
  "five_minutes = 5 * 60 * 1000000"

definition submitted_at_future_guard :: "timestamp \<Rightarrow> staging_row \<Rightarrow> bool" where
  "submitted_at_future_guard now x =
     (case submitted_at x of None \<Rightarrow> False | Some t \<Rightarrow> t > now + five_minutes)"

definition checks :: "timestamp \<Rightarrow> (string \<times> (staging_row \<Rightarrow> bool)) list" where
  "checks now =
     [(''null_required_fields'', null_required_fields),
      (''loan_amount_positive'', loan_amount_positive),
      (''annual_income_positive'', annual_income_positive),
      (''submitted_at_future_guard'', submitted_at_future_guard now)]"

text \<open>\<open>SELECT COUNT(*) FROM staging.loan_applications WHERE ...\<close>\<close>

definition select_count :: "(staging_row \<Rightarrow> bool) \<Rightarrow> staging_row list \<Rightarrow> nat" where
  "select_count wh t = length (filter wh t)"

definition failure_line :: "string \<Rightarrow> nat \<Rightarrow> string" where
  "failure_line name count = name @ '': '' @ str_nat count @ '' failing rows''"

text \<open>The \<open>for name, sql in checks\<close> loop; \<open>fs\<close> is the list \<open>failures\<close>.\<close>

fun checks_loop ::
  "staging_row list \<Rightarrow> (string \<times> (staging_row \<Rightarrow> bool)) list \<Rightarrow> string list \<Rightarrow> string list"
where
  "checks_loop t [] fs = fs"
| "checks_loop t ((name, sql) # cs) fs =
     (let count = select_count sql t
      in checks_loop t cs (if count > 0 then fs @ [failure_line name count] else fs))"

definition staging_checks :: "timestamp \<Rightarrow> staging_row list \<Rightarrow> QualityResult" where
  "staging_checks now t =
     (let fs = checks_loop t (checks now) []
      in \<lparr>passed = (length fs = 0), failures = fs\<rparr>)"

subsection \<open>The outside world of one run\<close>

text \<open>
  Modelled from the spec: the DDL of \<open>metadata.pipeline_runs\<close> is not part of the
  sources. A row has the columns the statements of \<open>create_pipeline_run\<close> and
  \<open>finish_pipeline_run\<close> name (the spec's \<open>pipeline_runs(run_id unique, ...)\<close>).
\<close>

record pipeline_run =
  run_id :: string
  pipeline_name :: string
  status :: string
  row_count :: "nat option"
  error_message :: "string option"

text \<open>
  What the run does to the outside, in the order it does it: database statements, the
  HTTP request, the archive write, and the lines \<open>log_event\<close> prints (by event name).
\<close>

datatype event =
    DbConnect
  | CreatePipelineRun string string
  | EnsureIngestionState string
  | GetWatermark string
  | HttpGet "string option" nat
  | WriteBronzeJsonl string string
  | ExecuteMany nat
  | RunStagingChecks
  | SetWatermark string timestamp
  | FinishPipelineRun string string "nat option" "string option"
  | ConnClose
  | LogEvent string

text \<open>
  The committed contents of the three relations, the archive directory (keyed by the
  \<open>dt=\<close> partition and the run id, holding the lines of the file) and the trace.
  A row of \<open>metadata.ingestion_state\<close> is the source name with its watermark. The
  columns the database clock fills (\<open>updated_at\<close>, \<open>started_at\<close>,
  \<open>finished_at\<close>) are left out.
\<close>

record world =
  ingestion_state :: "(string \<times> timestamp option) list"
  pipeline_runs :: "pipeline_run list"
  staging :: "staging_row list"
  bronze :: "((string \<times> string) \<times> string list) list"
  trace :: "event list"

text \<open>
  Everything the run takes from outside: the generated run id, the clocks, the library
  functions it calls, the answer of the source API, and which external operation raises.
  \<open>fault env ev = Some e\<close> means that the operation \<open>ev\<close> raises \<open>e\<close>.
\<close>

record env =
  uuid4 :: string
  today :: string
  db_now :: timestamp
  strftime :: "timestamp \<Rightarrow> string"
  http_get :: "string option \<Rightarrow> nat \<Rightarrow> error + raw_record list"
  fromisoformat :: "string \<Rightarrow> error + timestamp"
  json_dumps :: "raw_record \<Rightarrow> string"
  fault :: "event \<Rightarrow> error option"

type_synonym 'a prog = "world \<Rightarrow> (error + 'a) \<times> world"

definition ret :: "'a \<Rightarrow> 'a prog" where
  "ret v = (\<lambda>w. (Inr v, w))"

definition raise :: "error \<Rightarrow> 'a prog" where
  "raise e = (\<lambda>w. (Inl e, w))"

definition bind :: "'a prog \<Rightarrow> ('a \<Rightarrow> 'b prog) \<Rightarrow> 'b prog" where
  "bind m f = (\<lambda>w. case m w of (Inl e, w') \<Rightarrow> (Inl e, w') | (Inr v, w') \<Rightarrow> f v w')"

text \<open>\<open>try: m  except Exception as e: h e\<close>\<close>

definition try_except :: "'a prog \<Rightarrow> (error \<Rightarrow> 'a prog) \<Rightarrow> 'a prog" where
  "try_except m h = (\<lambda>w. case m w of (Inl e, w') \<Rightarrow> h e w' | (Inr v, w') \<Rightarrow> (Inr v, w'))"

text \<open>\<open>try: m  except Exception: pass\<close>\<close>

definition try_pass :: "unit prog \<Rightarrow> unit prog" where
  "try_pass m = (\<lambda>w. case m w of (_, w') \<Rightarrow> (Inr (), w'))"

text \<open>\<open>try: m  finally: c\<close>, for a \<open>c\<close> that does not raise.\<close>

definition try_finally :: "'a prog \<Rightarrow> (world \<Rightarrow> world) \<Rightarrow> 'a prog" where
  "try_finally m c = (\<lambda>w. case m w of (r, w') \<Rightarrow> (r, c w'))"

definition emit :: "event \<Rightarrow> world \<Rightarrow> world" where
  "emit ev w = w\<lparr>trace := trace w @ [ev]\<rparr>"

text \<open>
  An external operation: it is attempted, and it raises when the environment says so. An
  operation that raises leaves the relations and the archive as they were: a statement
  that fails is never committed, and a write to the archive that fails is taken to leave
  no file. Which operations raise is left to the environment, so a property that does
  not name an operation holds whatever it does, also for a database that refuses every
  statement after a first failure.
\<close>

definition effect :: "env \<Rightarrow> event \<Rightarrow> unit prog" where
  "effect env ev =
     (\<lambda>w. case fault env ev of Some e \<Rightarrow> (Inl e, emit ev w) | None \<Rightarrow> (Inr (), emit ev w))"

definition modify :: "(world \<Rightarrow> world) \<Rightarrow> unit prog" where
  "modify f = (\<lambda>w. (Inr (), f w))"

text \<open>Reading the world, and passing on a result that is a value or an exception.\<close>

definition gets :: "(world \<Rightarrow> 'a) \<Rightarrow> 'a prog" where
  "gets f = (\<lambda>w. (Inr (f w), w))"

definition lift :: "error + 'a \<Rightarrow> 'a prog" where
  "lift r = (\<lambda>w. (r, w))"

definition log_event :: "string \<Rightarrow> unit prog" where
  "log_event name = modify (emit (LogEvent name))"

subsection \<open>\<open>db.py\<close>\<close>

definition get_db_conn :: "env \<Rightarrow> unit prog" where
  "get_db_conn env = effect env DbConnect"

subsection \<open>\<open>ingest_api.py\<close>\<close>

text \<open>\<open>INSERT ... VALUES (source_name, NULL) ON CONFLICT (source_name) DO NOTHING\<close>\<close>

definition ensure_ingestion_state :: "env \<Rightarrow> string \<Rightarrow> unit prog" where
  "ensure_ingestion_state env source_name =
     bind (effect env (EnsureIngestionState source_name)) (\<lambda>_.
     modify (\<lambda>w. w\<lparr>ingestion_state :=
        (if source_name \<in> fst ` set (ingestion_state w) then ingestion_state w
         else ingestion_state w @ [(source_name, None)])\<rparr>))"

text \<open>\<open>row = cur.fetchone(); return row[0] if row else None\<close>\<close>

definition lookup_watermark :: "(string \<times> timestamp option) list \<Rightarrow> string \<Rightarrow> timestamp option" where
  "lookup_watermark t source_name =
     (case find (\<lambda>row. fst row = source_name) t of None \<Rightarrow> None | Some row \<Rightarrow> snd row)"

definition get_watermark :: "env \<Rightarrow> string \<Rightarrow> (timestamp option) prog" where
  "get_watermark env source_name =
     bind (effect env (GetWatermark source_name)) (\<lambda>_.
     gets (\<lambda>w. lookup_watermark (ingestion_state w) source_name))"

text \<open>\<open>UPDATE ... SET last_ingested_at = new_watermark WHERE source_name = ...\<close>\<close>

definition update_watermark ::
  "string \<Rightarrow> timestamp \<Rightarrow> (string \<times> timestamp option) list
     \<Rightarrow> (string \<times> timestamp option) list"
where
  "update_watermark source new_watermark t =
     map (\<lambda>row. if fst row = source then (source, Some new_watermark) else row) t"

definition set_watermark :: "env \<Rightarrow> string \<Rightarrow> timestamp \<Rightarrow> unit prog" where
  "set_watermark env source_name new_watermark =
     bind (effect env (SetWatermark source_name new_watermark)) (\<lambda>_.
     modify (\<lambda>w. w\<lparr>ingestion_state :=
        update_watermark source_name new_watermark (ingestion_state w)\<rparr>))"

text \<open>\<open>INSERT INTO metadata.pipeline_runs (run_id, pipeline_name, status)\<close>\<close>

definition new_run :: "string \<Rightarrow> string \<Rightarrow> pipeline_run" where
  "new_run rid pname =
     \<lparr>run_id = rid, pipeline_name = pname, status = ''running'',
      row_count = None, error_message = None\<rparr>"

definition create_pipeline_run :: "env \<Rightarrow> string \<Rightarrow> string \<Rightarrow> unit prog" where
  "create_pipeline_run env rid pname =
     bind (effect env (CreatePipelineRun rid pname)) (\<lambda>_.
     modify (\<lambda>w. w\<lparr>pipeline_runs := pipeline_runs w @ [new_run rid pname]\<rparr>))"

text \<open>\<open>UPDATE metadata.pipeline_runs SET ... WHERE run_id = ...\<close>\<close>

definition update_run ::
  "string \<Rightarrow> string \<Rightarrow> nat option \<Rightarrow> string option \<Rightarrow> pipeline_run list
     \<Rightarrow> pipeline_run list"
where
  "update_run rid st rc msg t =
     map (\<lambda>p. if run_id p = rid
              then p\<lparr>status := st, row_count := rc, error_message := msg\<rparr> else p) t"

definition finish_pipeline_run ::
  "env \<Rightarrow> string \<Rightarrow> string \<Rightarrow> nat option \<Rightarrow> string option \<Rightarrow> unit prog"
where
  "finish_pipeline_run env rid st rc msg =
     bind (effect env (FinishPipelineRun rid st rc msg)) (\<lambda>_.
     modify (\<lambda>w. w\<lparr>pipeline_runs := update_run rid st rc msg (pipeline_runs w)\<rparr>))"

text \<open>
  The parameter \<open>since\<close> is sent formatted to the second; the answer is what
  \<open>requests.get\<close>, \<open>raise_for_status\<close> and \<open>resp.json()\<close> give.
\<close>

definition fetch_api_records :: "env \<Rightarrow> timestamp option \<Rightarrow> nat \<Rightarrow> (raw_record list) prog" where
  "fetch_api_records env since limit =
     (let params = (case since of None \<Rightarrow> None | Some s \<Rightarrow> Some (strftime env s))
      in bind (modify (emit (HttpGet params limit))) (\<lambda>_.
         lift (http_get env params limit)))"

definition write_file ::
  "(string \<times> string) \<Rightarrow> string list \<Rightarrow> ((string \<times> string) \<times> string list) list
     \<Rightarrow> ((string \<times> string) \<times> string list) list"
where
  "write_file p content fs = (p, content) # filter (\<lambda>f. fst f \<noteq> p) fs"

definition write_bronze_jsonl :: "env \<Rightarrow> raw_record list \<Rightarrow> string \<Rightarrow> (string \<times> string) prog" where
  "write_bronze_jsonl env records rid =
     (let dt = today env
      in bind (effect env (WriteBronzeJsonl dt rid)) (\<lambda>_.
         bind (modify (\<lambda>w. w\<lparr>bronze :=
                 write_file (dt, rid) (map (json_dumps env) records) (bronze w)\<rparr>)) (\<lambda>_.
         ret (dt, rid))))"

text \<open>
  The tuple \<open>upsert_staging\<close> builds from a record \<open>r\<close> and its parsed timestamp;
  \<open>float(x)\<close> of a number is that number.
\<close>

definition row_of :: "raw_record \<Rightarrow> timestamp \<Rightarrow> staging_row" where
  "row_of r t =
     \<lparr>application_id = Some (r_application_id r),
      applicant_id = Some (r_applicant_id r),
      submitted_at = Some t,
      loan_amount = Some (r_loan_amount r),
      purpose = Some (r_purpose r),
      state = Some (r_state r),
      annual_income = Some (r_annual_income r)\<rparr>"

text \<open>The loop of \<open>upsert_staging\<close> that builds \<open>rows\<close>; it raises at the first bad timestamp.\<close>

fun build_rows ::
  "(string \<Rightarrow> error + timestamp) \<Rightarrow> raw_record list \<Rightarrow> staging_row list
     \<Rightarrow> error + staging_row list"
where
  "build_rows fiso [] rows = Inr rows"
| "build_rows fiso (r # rs) rows =
     (case fiso (replace_Z (r_submitted_at r)) of
        Inl e \<Rightarrow> Inl e
      | Inr t \<Rightarrow> build_rows fiso rs (rows @ [row_of r t]))"

text \<open>
  \<open>INSERT ... ON CONFLICT (application_id) DO UPDATE SET\<close> every other column to the
  new row's value. A NULL key conflicts with nothing.
\<close>

definition conflicts :: "staging_row \<Rightarrow> staging_row \<Rightarrow> bool" where
  "conflicts new x = (application_id new \<noteq> None \<and> application_id x = application_id new)"

definition upsert_row :: "staging_row list \<Rightarrow> staging_row \<Rightarrow> staging_row list" where
  "upsert_row t new =
     (if \<exists>x \<in> set t. conflicts new x
      then map (\<lambda>x. if conflicts new x
                    then x\<lparr>applicant_id := applicant_id new,
                           submitted_at := submitted_at new,
                           loan_amount := loan_amount new,
                           purpose := purpose new,
                           state := state new,
                           annual_income := annual_income new\<rparr>
                    else x) t
      else t @ [new])"

definition executemany :: "staging_row list \<Rightarrow> staging_row list \<Rightarrow> staging_row list" where
  "executemany t rows = foldl upsert_row t rows"

definition upsert_staging :: "env \<Rightarrow> raw_record list \<Rightarrow> nat prog" where
  "upsert_staging env records =
     (if records = [] then ret 0
      else (case build_rows (fromisoformat env) records [] of
              Inl e \<Rightarrow> raise e
            | Inr rows \<Rightarrow>
                bind (effect env (ExecuteMany (length rows))) (\<lambda>_.
                bind (modify (\<lambda>w. w\<lparr>staging := executemany (staging w) rows\<rparr>)) (\<lambda>_.
                ret (length rows)))))"

text \<open>The list comprehension of \<open>compute_new_watermark\<close>.\<close>

fun parse_all :: "(string \<Rightarrow> error + timestamp) \<Rightarrow> raw_record list \<Rightarrow> error + timestamp list" where
  "parse_all fiso [] = Inr []"
| "parse_all fiso (r # rs) =
     (case fiso (replace_Z (r_submitted_at r)) of
        Inl e \<Rightarrow> Inl e
      | Inr t \<Rightarrow> (case parse_all fiso rs of Inl e \<Rightarrow> Inl e | Inr ts \<Rightarrow> Inr (t # ts)))"

text \<open>Python's \<open>max\<close> of a non-empty list: the first of the largest elements.\<close>

fun max_from :: "timestamp \<Rightarrow> timestamp list \<Rightarrow> timestamp" where
  "max_from m [] = m"
| "max_from m (x # xs) = max_from (if x > m then x else m) xs"

definition compute_new_watermark ::
  "(string \<Rightarrow> error + timestamp) \<Rightarrow> raw_record list \<Rightarrow> error + timestamp option"
where
  "compute_new_watermark fiso records =
     (if records = [] then Inr None
      else (case parse_all fiso records of
              Inl e \<Rightarrow> Inl e
            | Inr [] \<Rightarrow> Inl (ValueError ''max() arg is an empty sequence'')
            | Inr (t # ts) \<Rightarrow> Inr (Some (max_from t ts))))"

definition run_staging_checks :: "env \<Rightarrow> QualityResult prog" where
  "run_staging_checks env =
     bind (effect env RunStagingChecks) (\<lambda>_.
     gets (\<lambda>w. staging_checks (db_now env) (staging w)))"

definition source_name :: string where
  "source_name = ''mock_api.loan_applications''"

definition pipeline_name_const :: string where
  "pipeline_name_const = ''ingest_api_loan_applications''"

text \<open>The body of the \<open>try\<close> block of \<open>main\<close>.\<close>

definition run_body :: "env \<Rightarrow> string \<Rightarrow> unit prog" where
  "run_body env rid =
     bind (create_pipeline_run env rid pipeline_name_const) (\<lambda>_.
     bind (ensure_ingestion_state env source_name) (\<lambda>_.
     bind (get_watermark env source_name) (\<lambda>watermark.
     bind (log_event ''watermark_loaded'') (\<lambda>_.
     bind (fetch_api_records env watermark 500) (\<lambda>records.
     bind (log_event ''api_fetched'') (\<lambda>_.
     bind (write_bronze_jsonl env records rid) (\<lambda>bronze_path.
     bind (log_event ''bronze_written'') (\<lambda>_.
     bind (upsert_staging env records) (\<lambda>rc.
     bind (log_event ''staging_upserted'') (\<lambda>_.
     bind (run_staging_checks env) (\<lambda>quality.
     bind (if \<not> passed quality
           then bind (log_event ''quality_failed'') (\<lambda>_.
                raise (RuntimeError
                  (''Data quality checks failed: '' @ join '' | '' (failures quality))))
           else ret ()) (\<lambda>_.
     bind (log_event ''quality_passed'') (\<lambda>_.
     bind (case compute_new_watermark (fromisoformat env) records of
             Inl e \<Rightarrow> raise e
           | Inr None \<Rightarrow> ret ()
           | Inr (Some new_wm) \<Rightarrow>
               bind (set_watermark env source_name new_wm) (\<lambda>_.
               log_event ''watermark_updated'')) (\<lambda>_.
     bind (finish_pipeline_run env rid ''success'' (Some rc) None) (\<lambda>_.
     log_event ''pipeline_success'')))))))))))))))"

definition main :: "env \<Rightarrow> unit prog" where
  "main env =
     (let rid = uuid4 env
      in bind (log_event ''pipeline_start'') (\<lambda>_.
         bind (get_db_conn env) (\<lambda>_.
         try_finally
           (try_except (run_body env rid) (\<lambda>e.
              bind (try_pass (finish_pipeline_run env rid ''failed'' None (Some (str_of e)))) (\<lambda>_.
              bind (log_event ''pipeline_failed'') (\<lambda>_.
              raise e))))
           (emit ConnClose))))"

subsection \<open>The numbered steps of a run\<close>

text \<open>
  The body of the \<open>try\<close> block, cut at the steps of the transition policy: steps 1 to 4
  (run row, state row, watermark, fetch), step 5 (archive), step 6 (merge), step 7 (gate
  and watermark) and step 8 (closing the run). \<open>run_body\<close> is their sequence.
\<close>

definition steps_1_4 :: "env \<Rightarrow> string \<Rightarrow> (raw_record list) prog" where
  "steps_1_4 env rid =
     bind (create_pipeline_run env rid pipeline_name_const) (\<lambda>_.
     bind (ensure_ingestion_state env source_name) (\<lambda>_.
     bind (get_watermark env source_name) (\<lambda>watermark.
     bind (log_event ''watermark_loaded'') (\<lambda>_.
     bind (fetch_api_records env watermark 500) (\<lambda>records.
     bind (log_event ''api_fetched'') (\<lambda>_.
     ret records))))))"

definition step_5 :: "env \<Rightarrow> string \<Rightarrow> raw_record list \<Rightarrow> unit prog" where
  "step_5 env rid records =
     bind (write_bronze_jsonl env records rid) (\<lambda>bronze_path.
     log_event ''bronze_written'')"

definition step_6 :: "env \<Rightarrow> raw_record list \<Rightarrow> nat prog" where
  "step_6 env records =
     bind (upsert_staging env records) (\<lambda>rc.
     bind (log_event ''staging_upserted'') (\<lambda>_.
     ret rc))"

definition step_7 :: "env \<Rightarrow> raw_record list \<Rightarrow> unit prog" where
  "step_7 env records =
     bind (run_staging_checks env) (\<lambda>quality.
     bind (if \<not> passed quality
           then bind (log_event ''quality_failed'') (\<lambda>_.
                raise (RuntimeError
                  (''Data quality checks failed: '' @ join '' | '' (failures quality))))
           else ret ()) (\<lambda>_.
     bind (log_event ''quality_passed'') (\<lambda>_.
     (case compute_new_watermark (fromisoformat env) records of
             Inl e \<Rightarrow> raise e
           | Inr None \<Rightarrow> ret ()
           | Inr (Some new_wm) \<Rightarrow>
               bind (set_watermark env source_name new_wm) (\<lambda>_.
               log_event ''watermark_updated'')))))"

definition step_8 :: "env \<Rightarrow> string \<Rightarrow> nat \<Rightarrow> unit prog" where
  "step_8 env rid rc =
     bind (finish_pipeline_run env rid ''success'' (Some rc) None) (\<lambda>_.
     log_event ''pipeline_success'')"

text \<open>The world once the start is logged and the connection is open.\<close>

definition connected :: "world \<Rightarrow> world" where
  "connected w = emit DbConnect (emit (LogEvent ''pipeline_start'') w)"

text \<open>The \<open>since\<close> parameter a run sends from the world \<open>w\<close>, and what it fetches.\<close>

definition since_param :: "env \<Rightarrow> world \<Rightarrow> string option" where
  "since_param env w = map_option (strftime env) (lookup_watermark (ingestion_state w) source_name)"

definition fetched :: "env \<Rightarrow> world \<Rightarrow> error + raw_record list" where
  "fetched env w = http_get env (since_param env w) 500"

text \<open>
  Order in a trace: \<open>precedes A B\<close> says that every \<open>B\<close> event has an \<open>A\<close> event
  before it, \<open>never_after A B\<close> that no \<open>B\<close> event comes after an \<open>A\<close> event.
\<close>

fun precedes :: "(event \<Rightarrow> bool) \<Rightarrow> (event \<Rightarrow> bool) \<Rightarrow> event list \<Rightarrow> bool" where
  "precedes A B [] = True"
| "precedes A B (x # xs) = (if B x then False else if A x then True else precedes A B xs)"

fun never_after :: "(event \<Rightarrow> bool) \<Rightarrow> (event \<Rightarrow> bool) \<Rightarrow> event list \<Rightarrow> bool" where
  "never_after A B [] = True"
| "never_after A B (x # xs) = (if A x then \<not> list_ex B xs else never_after A B xs)"

definition is_archive :: "event \<Rightarrow> bool" where
  "is_archive ev = (case ev of WriteBronzeJsonl dt rid \<Rightarrow> True | _ \<Rightarrow> False)"

definition is_merge :: "event \<Rightarrow> bool" where
  "is_merge ev = (case ev of ExecuteMany n \<Rightarrow> True | _ \<Rightarrow> False)"

definition is_gate :: "event \<Rightarrow> bool" where
  "is_gate ev = (ev = RunStagingChecks)"

definition is_advance :: "event \<Rightarrow> bool" where
  "is_advance ev = (case ev of SetWatermark s t \<Rightarrow> True | _ \<Rightarrow> False)"

definition is_record_failed :: "event \<Rightarrow> bool" where
  "is_record_failed ev =
     (case ev of FinishPipelineRun rid st rc msg \<Rightarrow> st = ''failed'' | _ \<Rightarrow> False)"

definition is_log :: "string \<Rightarrow> event \<Rightarrow> bool" where
  "is_log name ev = (ev = LogEvent name)"

text \<open>
  The order of the side effects of a run: a merge statement only after the archive is
  written, the gate only after the merge has returned, a watermark update only after the
  gate has passed, and none of the earlier effects after a later one.
\<close>

definition well_ordered :: "event list \<Rightarrow> bool" where
  "well_ordered tr =
     (precedes is_archive (is_log ''bronze_written'') tr
      \<and> precedes (is_log ''bronze_written'') is_merge tr
      \<and> precedes (is_log ''bronze_written'') (is_log ''staging_upserted'') tr
      \<and> precedes (is_log ''staging_upserted'') is_gate tr
      \<and> precedes is_gate (is_log ''quality_passed'') tr
      \<and> precedes (is_log ''quality_passed'') is_advance tr
      \<and> never_after is_merge is_archive tr
      \<and> never_after is_gate is_merge tr
      \<and> never_after is_advance is_gate tr)"

subsection \<open>Vocabulary of the statements\<close>



text \<open>The row built from a record whose timestamp parses.\<close>

definition parsed :: "(string \<Rightarrow> error + timestamp) \<Rightarrow> raw_record \<Rightarrow> staging_row" where
  "parsed fiso r = row_of r (projr (fiso (replace_Z (r_submitted_at r))))"

subsection \<open>Concrete inputs\<close>

definition rec1 :: raw_record where
  "rec1 = \<lparr>r_application_id = ''app-1'', r_applicant_id = ''cust-1'',
            r_submitted_at = ''2026-02-24T10:01:00Z'', r_loan_amount = 12000,
            r_purpose = ''auto'', r_state = ''NY'', r_annual_income = 65000\<rparr>"

definition rec2 :: raw_record where
  "rec2 = \<lparr>r_application_id = ''app-2'', r_applicant_id = ''cust-2'',
            r_submitted_at = ''2026-02-24T10:02:00Z'', r_loan_amount = 8000,
            r_purpose = ''medical'', r_state = ''TX'', r_annual_income = 52000\<rparr>"

text \<open>A later version of \<open>app-1\<close>.\<close>

definition rec3 :: raw_record where
  "rec3 = \<lparr>r_application_id = ''app-1'', r_applicant_id = ''cust-1'',
            r_submitted_at = ''2026-02-24T10:03:00Z'', r_loan_amount = 15000,
            r_purpose = ''home_improvement'', r_state = ''NJ'', r_annual_income = 70000\<rparr>"

text \<open>A staging row that two checks reject: no purpose, and a loan amount of 0.\<close>

definition bad_row :: staging_row where
  "bad_row = \<lparr>application_id = Some ''app-0'', applicant_id = Some ''cust-0'',
               submitted_at = Some 1771927200000000, loan_amount = Some 0,
               purpose = None, state = Some ''CA'', annual_income = Some 48000\<rparr>"

text \<open>A parser that knows three timestamps (10:01, 10:02 and 10:03 UTC of 2026-02-24).\<close>

definition example_fromisoformat :: "string \<Rightarrow> error + timestamp" where
  "example_fromisoformat s =
     (if s = ''2026-02-24T10:01:00+00:00'' then Inr 1771927260000000
      else if s = ''2026-02-24T10:02:00+00:00'' then Inr 1771927320000000
      else if s = ''2026-02-24T10:03:00+00:00'' then Inr 1771927380000000
      else Inl (ValueError (''Invalid isoformat string: '' @ s)))"

definition example_strftime :: "timestamp \<Rightarrow> string" where
  "example_strftime t =
     (if t = 1771927260000000 then ''2026-02-24T10:01:00Z''
      else if t = 1771927320000000 then ''2026-02-24T10:02:00Z''
      else ''2026-02-24T10:03:00Z'')"

text \<open>
  A source that answers a cold start with three records and anything else with none;
  the clock reads 10:05; nothing raises.
\<close>

definition example_env :: env where
  "example_env =
     \<lparr>uuid4 = ''run-1'', today = ''2026-02-24'', db_now = 1771927500000000,
      strftime = example_strftime,
      http_get = (\<lambda>since limit. if since = None then Inr [rec1, rec2, rec3] else Inr []),
      fromisoformat = example_fromisoformat,
      json_dumps = r_application_id,
      fault = (\<lambda>ev. None)\<rparr>"

definition empty_world :: world where
  "empty_world = \<lparr>ingestion_state = [], pipeline_runs = [], staging = [], bronze = [], trace = []\<rparr>"

text \<open>The source is down, and so is the database once the failure is to be recorded.\<close>

definition outage_env :: env where
  "outage_env =
     example_env
       \<lparr>http_get := (\<lambda>since limit. Inl (HTTPError ''503 Server Error'')),
        fault := (\<lambda>ev. if ev = FinishPipelineRun ''run-1'' ''failed'' None
                                (Some ''503 Server Error'')
                        then Some (OperationalError ''connection lost'') else None)\<rparr>"

text \<open>A staging relation that already holds a defective row.\<close>

definition stale_world :: world where
  "stale_world = empty_world\<lparr>staging := [bad_row]\<rparr>"

text \<open>The same source when it has nothing new.\<close>

definition quiet_env :: env where
  "quiet_env = example_env\<lparr>http_get := (\<lambda>since limit. Inr [])\<rparr>"

text \<open>The database refuses the batch insert of three rows.\<close>

definition merge_fault_env :: env where
  "merge_fault_env =
     example_env
       \<lparr>fault := (\<lambda>ev. if ev = ExecuteMany 3
                        then Some (OperationalError ''deadlock detected'') else None)\<rparr>"

text \<open>
  A watermark with a fractional second: 10:00:00.9. The request carries it as
  \<open>2026-02-24T10:00:00Z\<close>, and the source answers with a record of 10:00:00.5, which is
  after the instant that text denotes.
\<close>

definition rec_half :: raw_record where
  "rec_half = \<lparr>r_application_id = ''app-5'', r_applicant_id = ''cust-5'',
               r_submitted_at = ''2026-02-24T10:00:00.500000Z'', r_loan_amount = 9000,
               r_purpose = ''auto'', r_state = ''WA'', r_annual_income = 58000\<rparr>"

definition fraction_fromisoformat :: "string \<Rightarrow> error + timestamp" where
  "fraction_fromisoformat s =
     (if s = ''2026-02-24T10:00:00+00:00'' then Inr 1771927200000000
      else if s = ''2026-02-24T10:00:00.500000+00:00'' then Inr 1771927200500000
      else example_fromisoformat s)"

definition fraction_strftime :: "timestamp \<Rightarrow> string" where
  "fraction_strftime t =
     (if t = 1771927200900000 then ''2026-02-24T10:00:00Z'' else example_strftime t)"

definition fraction_env :: env where
  "fraction_env =
     example_env
       \<lparr>strftime := fraction_strftime,
        http_get := (\<lambda>since limit. if since = Some ''2026-02-24T10:00:00Z''
                                    then Inr [rec_half] else Inr []),
        fromisoformat := fraction_fromisoformat\<rparr>"

definition fraction_world :: world where
  "fraction_world = empty_world\<lparr>ingestion_state := [(source_name, Some 1771927200900000)]\<rparr>"

text \<open>A second run after the watermark has reached 10:01: the source has two later records.\<close>

definition followup_env :: env where
  "followup_env =
     example_env
       \<lparr>http_get := (\<lambda>since limit. if since = Some ''2026-02-24T10:01:00Z''
                                    then Inr [rec2, rec3] else Inr [])\<rparr>"

definition resumed_world :: world where
  "resumed_world = empty_world\<lparr>ingestion_state := [(source_name, Some 1771927260000000)]\<rparr>"

section \<open>The mock source API: \<open>services/api/app/main.py\<close>\<close>

text \<open>
  A \<open>datetime\<close> by its calendar fields. The only time zone of this service is UTC: \<open>now\<close>
  is taken in UTC, a naive \<open>since\<close> is declared to be UTC, and the client sends
  \<open>since\<close> with the \<open>Z\<close> suffix; other offsets are outside the model.
\<close>

datatype tz = UTC

record datetime =
  year :: int
  month :: int
  day :: int
  hour :: int
  minute :: int
  second :: int
  microsecond :: int
  tzinfo :: "tz option"

text \<open>
  \<open>datetime.replace\<close> checks the new time fields and raises \<open>ValueError\<close> when one is
  out of range; the hour is checked before the minute.
\<close>

definition replace_minute :: "datetime \<Rightarrow> int \<Rightarrow> error + datetime" where
  "replace_minute d m =
     (if 0 \<le> m \<and> m \<le> 59 then Inr (d\<lparr>minute := m\<rparr>)
      else Inl (ValueError ''minute must be in 0..59''))"

definition replace_hour_minute :: "datetime \<Rightarrow> int \<Rightarrow> int \<Rightarrow> error + datetime" where
  "replace_hour_minute d h m =
     (if \<not> (0 \<le> h \<and> h \<le> 23) then Inl (ValueError ''hour must be in 0..23'')
      else if \<not> (0 \<le> m \<and> m \<le> 59) then Inl (ValueError ''minute must be in 0..59'')
      else Inr (d\<lparr>hour := h, minute := m\<rparr>))"

text \<open>\<open>d.replace(second=0, microsecond=0)\<close>: both values are in range.\<close>

definition replace_second_microsecond :: "datetime \<Rightarrow> datetime" where
  "replace_second_microsecond d = d\<lparr>second := 0, microsecond := 0\<rparr>"

text \<open>
  Two aware datetimes of the same zone compare by their fields, most significant first.
\<close>

definition dt_key :: "datetime \<Rightarrow> int \<times> int \<times> int \<times> int \<times> int \<times> int \<times> int" where
  "dt_key d = (year d, month d, day d, hour d, minute d, second d, microsecond d)"

definition dt_ge :: "datetime \<Rightarrow> datetime \<Rightarrow> bool" where
  "dt_ge a b = (dt_key b \<le> dt_key a)"

record LoanApplication =
  la_application_id :: string
  la_applicant_id :: string
  la_submitted_at :: datetime
  la_loan_amount :: real
  la_purpose :: string
  la_state :: string
  la_annual_income :: real

definition STATES :: "string list" where
  "STATES = [''NY'', ''NJ'', ''PA'', ''CT'', ''MA'', ''FL'', ''GA'', ''TX'', ''CA'', ''IL'']"

definition PURPOSES :: "string list" where
  "PURPOSES = [''debt_consolidation'', ''home_improvement'', ''auto'', ''medical'',
               ''small_business'']"

text \<open>
  What a request takes from outside: the clock, the successive results of \<open>uuid4()\<close>,
  the epoch seconds \<open>int(d.timestamp())\<close> of a datetime, and the ISO-8601 parser.
\<close>

record api_env =
  now_utc :: datetime
  uuid4_at :: "nat \<Rightarrow> string"
  timestamp_of :: "datetime \<Rightarrow> int"
  iso_parse :: "string \<Rightarrow> error + datetime"

text \<open>\<open>_fake_record\<close>; it is the \<open>k\<close>-th record of the answer, counted from 0.\<close>

definition fake_record :: "api_env \<Rightarrow> nat \<Rightarrow> datetime \<Rightarrow> LoanApplication" where
  "fake_record env k submitted =
     (let idx = timestamp_of env submitted mod int (length STATES);
          purpose_idx = timestamp_of env submitted mod int (length PURPOSES)
      in \<lparr>la_application_id = uuid4_at env (2 * k),
          la_applicant_id = uuid4_at env (2 * k + 1),
          la_submitted_at = submitted,
          la_loan_amount = of_int (5000 + timestamp_of env submitted mod 20000),
          la_purpose = PURPOSES ! nat purpose_idx,
          la_state = STATES ! nat idx,
          la_annual_income = of_int (40000 + timestamp_of env submitted mod 90000)\<rparr>)"

text \<open>The \<open>while len(records) < limit\<close> loop, with its \<open>break\<close>.\<close>

function gen_loop ::
  "api_env \<Rightarrow> nat \<Rightarrow> datetime \<Rightarrow> datetime \<Rightarrow> LoanApplication list
     \<Rightarrow> error + LoanApplication list"
where
  "gen_loop env limit now cursor records =
     (if length records < limit
      then (let c = replace_second_microsecond cursor
            in case (if minute c < 59 then replace_minute c (minute c + 1)
                     else replace_hour_minute c (hour c + 1) 0) of
                 Inl e \<Rightarrow> Inl e
               | Inr c' \<Rightarrow>
                   if dt_ge c' now then Inr records
                   else gen_loop env limit now c'
                          (records @ [fake_record env (length records) c']))
      else Inr records)"
  by pat_completeness auto
termination
  by (relation "measure (\<lambda>(env, limit, now, cursor, records). limit - length records)") auto

declare gen_loop.simps [simp del]

text \<open>
  The handler of \<open>GET /loan_applications\<close>. The framework rejects a \<open>limit\<close> outside
  1..500 before the body runs.
\<close>

definition loan_applications :: "api_env \<Rightarrow> string option \<Rightarrow> nat \<Rightarrow> error + LoanApplication list" where
  "loan_applications env since limit =
     (if limit < 1 \<or> 500 < limit then Inl (ValidationError ''limit'')
      else
        (let now = now_utc env
         in case (case since of
                    None \<Rightarrow>
                      (let start = replace_second_microsecond now
                       in replace_minute start (max 0 (minute start - 60)))
                  | Some s \<Rightarrow>
                      (case iso_parse env (replace_Z s) of
                         Inl e \<Rightarrow> Inl e
                       | Inr start \<Rightarrow>
                           Inr (if tzinfo start = None then start\<lparr>tzinfo := Some UTC\<rparr>
                                else start))) of
              Inl e \<Rightarrow> Inl e
            | Inr start \<Rightarrow> gen_loop env limit now start []))"

subsection \<open>Concrete requests\<close>

definition at_2026_02 :: "int \<Rightarrow> int \<Rightarrow> int \<Rightarrow> int \<Rightarrow> datetime" where
  "at_2026_02 d h mi s =
     \<lparr>year = 2026, month = 2, day = d, hour = h, minute = mi, second = s, microsecond = 0,
      tzinfo = Some UTC\<rparr>"

text \<open>
  Epoch seconds within February 2026, and a parser that knows one timestamp:
  two minutes before the end of the 24th.
\<close>

definition feb_env :: "datetime \<Rightarrow> api_env" where
  "feb_env now =
     \<lparr>now_utc = now,
      uuid4_at = (\<lambda>k. ''uuid-'' @ str_nat k),
      timestamp_of =
        (\<lambda>d. 1769904000 + (day d - 1) * 86400 + hour d * 3600 + minute d * 60 + second d),
      iso_parse =
        (\<lambda>s. if s = ''2026-02-24T23:58:00+00:00'' then Inr (at_2026_02 24 23 58 0)
             else Inl (ValueError (''Invalid isoformat string: '' @ s)))\<rparr>"

section \<open>Properties\<close>

subsection \<open>The quality gate\<close>







subsection \<open>The staging merge\<close>

text \<open>
  C9. An empty record sequence returns 0 and leaves the whole world as it was: no
  statement reaches the database (nothing is added to the trace), whatever the database
  would have answered.
\<close>

theorem upsert_staging_empty:
  "upsert_staging env [] w = (Inr 0, w)"
  by (simp add: upsert_staging_def ret_def)

theorem upsert_staging_empty_witness:
  "upsert_staging (example_env\<lparr>fault := \<lambda>ev. Some (OperationalError ''connection lost'')\<rparr>) []
     (empty_world\<lparr>staging := [bad_row]\<rparr>)
   = (Inr 0, empty_world\<lparr>staging := [bad_row]\<rparr>)"
  by (rule upsert_staging_empty)















lemma build_rows_Inr:
  "build_rows fiso rs acc = Inr rows \<Longrightarrow>
   rows = acc @ map (parsed fiso) rs
   \<and> (\<forall>r \<in> set rs. \<exists>t. fiso (replace_Z (r_submitted_at r)) = Inr t)"
proof (induction rs arbitrary: acc)
  case Nil
  then show ?case by simp
next
  case (Cons a rs)
  then obtain t where t: "fiso (replace_Z (r_submitted_at a)) = Inr t"
    and rec: "build_rows fiso rs (acc @ [row_of a t]) = Inr rows"
    by (auto split: sum.splits)
  from Cons.IH[OF rec] t show ?case by (simp add: parsed_def)
qed




lemma upsert_staging_Inr:
  assumes "upsert_staging env records w = (Inr n, w1)" "records \<noteq> []"
  shows "build_rows (fromisoformat env) records [] = Inr (map (parsed (fromisoformat env)) records)"
    and "fault env (ExecuteMany (length records)) = None"
    and "n = length records"
    and "w1 = emit (ExecuteMany (length records)) w
            \<lparr>staging := executemany (staging w) (map (parsed (fromisoformat env)) records)\<rparr>"
proof -
  from assms obtain rows where rows: "build_rows (fromisoformat env) records [] = Inr rows"
    by (auto simp: upsert_staging_def raise_def split: sum.splits)
  from build_rows_Inr[OF rows] have eq: "rows = map (parsed (fromisoformat env)) records" by simp
  from rows eq show "build_rows (fromisoformat env) records [] = Inr (map (parsed (fromisoformat env)) records)" by simp
  from assms rows eq show "fault env (ExecuteMany (length records)) = None"
    by (auto simp: upsert_staging_def bind_def effect_def split: option.splits)
  from assms rows eq show "n = length records"
    by (auto simp: upsert_staging_def bind_def effect_def modify_def ret_def split: option.splits)
  from assms rows eq show "w1 = emit (ExecuteMany (length records)) w
            \<lparr>staging := executemany (staging w) (map (parsed (fromisoformat env)) records)\<rparr>"
    by (auto simp: upsert_staging_def bind_def effect_def modify_def ret_def emit_def split: option.splits)
qed



lemmas example_defs =
  example_env_def rec1_def rec2_def rec3_def empty_world_def example_fromisoformat_def
  example_strftime_def bad_row_def




subsection \<open>The orchestrator\<close>

lemma bind_assoc: "bind (bind m f) g = bind m (\<lambda>x. bind (f x) g)"
  by (auto simp: bind_def fun_eq_iff split: prod.splits sum.splits)

lemma bind_ret_left: "bind (ret v) f = f v"
  by (simp add: bind_def ret_def)

lemma run_body_steps:
  "run_body env rid =
     bind (steps_1_4 env rid) (\<lambda>records.
     bind (step_5 env rid records) (\<lambda>_.
     bind (step_6 env records) (\<lambda>rc.
     bind (step_7 env records) (\<lambda>_.
     step_8 env rid rc))))"
  by (simp add: run_body_def steps_1_4_def step_5_def step_6_def step_7_def step_8_def
      bind_assoc bind_ret_left)

lemma bind_effect:
  "bind (effect env ev) f w =
     (case fault env ev of Some e \<Rightarrow> (Inl e, emit ev w) | None \<Rightarrow> f () (emit ev w))"
  by (simp add: bind_def effect_def split: option.splits)

lemma bind_modify: "bind (modify g) f w = f () (g w)"
  by (simp add: bind_def modify_def)

lemma bind_log_event: "bind (log_event n) f w = f () (emit (LogEvent n) w)"
  by (simp add: log_event_def bind_modify)

lemma bind_ret: "bind (ret v) f w = f v w"
  by (simp add: bind_def ret_def)

lemma bind_raise: "bind (raise e) f w = (Inl e, w)"
  by (simp add: bind_def raise_def)

lemma log_event_apply: "log_event n w = (Inr (), emit (LogEvent n) w)"
  by (simp add: log_event_def modify_def)

lemma raise_apply: "raise e w = (Inl e, w)"
  by (simp add: raise_def)

lemma ret_apply: "ret v w = (Inr v, w)"
  by (simp add: ret_def)

lemma bind_gets: "bind (gets g) f w = f (g w) w"
  by (simp add: bind_def gets_def)

lemma bind_lift: "bind (lift r) f w = (case r of Inl e \<Rightarrow> (Inl e, w) | Inr v \<Rightarrow> f v w)"
  by (simp add: bind_def lift_def split: sum.splits)

lemma modify_apply: "modify g w = (Inr (), g w)"
  by (simp add: modify_def)

lemma effect_apply:
  "effect env ev w = (case fault env ev of Some e \<Rightarrow> (Inl e, emit ev w) | None \<Rightarrow> (Inr (), emit ev w))"
  by (simp add: effect_def)

lemmas prog_simps = modify_apply effect_apply bind_effect bind_modify bind_log_event bind_ret bind_raise
  bind_gets bind_lift log_event_apply raise_apply ret_apply bind_assoc

lemma emit_fields [simp]:
  "trace (emit ev w) = trace w @ [ev]"
  "staging (emit ev w) = staging w"
  "ingestion_state (emit ev w) = ingestion_state w"
  "pipeline_runs (emit ev w) = pipeline_runs w"
  "bronze (emit ev w) = bronze w"
  by (simp_all add: emit_def)

lemma bind_Inr:
  "bind m f w = (Inr v, w') \<longleftrightarrow> (\<exists>u w1. m w = (Inr u, w1) \<and> f u w1 = (Inr v, w'))"
  by (auto simp: bind_def split: prod.splits sum.splits)

lemma bind_Inl:
  "bind m f w = (Inl e, w') \<longleftrightarrow>
     (m w = (Inl e, w') \<or> (\<exists>u w1. m w = (Inr u, w1) \<and> f u w1 = (Inl e, w')))"
  by (auto simp: bind_def split: prod.splits sum.splits)

lemma lookup_ensure:
  "lookup_watermark (if s \<in> fst ` set t then t else t @ [(s, None)]) s = lookup_watermark t s"
  by (induction t) (auto simp: lookup_watermark_def)

lemma lookup_snoc_None:
  "s \<notin> fst ` set t \<Longrightarrow> lookup_watermark (t @ [(s, None)]) s = lookup_watermark t s"
  using lookup_ensure[of s t] by simp

lemma case_option_map: "(case x of None \<Rightarrow> None | Some s \<Rightarrow> Some (f s)) = map_option f x"
  by (cases x) simp_all

lemma steps_1_4_Inr:
  assumes "steps_1_4 env rid w = (Inr records, w1)"
  shows "fetched env w = Inr records"
    and "trace w1 = trace w @ [CreatePipelineRun rid pipeline_name_const,
           EnsureIngestionState source_name, GetWatermark source_name,
           LogEvent ''watermark_loaded'', HttpGet (since_param env w) 500,
           LogEvent ''api_fetched'']"
    and "staging w1 = staging w" and "bronze w1 = bronze w"
    and "lookup_watermark (ingestion_state w1) source_name
           = lookup_watermark (ingestion_state w) source_name"
    and "source_name \<in> fst ` set (ingestion_state w1)"
    and "pipeline_runs w1 = pipeline_runs w @ [new_run rid pipeline_name_const]"
  using assms
  by (auto simp: steps_1_4_def create_pipeline_run_def ensure_ingestion_state_def
      get_watermark_def fetch_api_records_def prog_simps lookup_ensure lookup_snoc_None fetched_def since_param_def
      new_run_def Let_def case_option_map
      split: option.splits sum.splits if_splits)


lemma steps_1_4_Inl:
  assumes "steps_1_4 env rid w = (Inl e, w1)"
  shows "\<exists>es. trace w1 = trace w @ es
           \<and> set es \<subseteq> {CreatePipelineRun rid pipeline_name_const,
                EnsureIngestionState source_name, GetWatermark source_name,
                LogEvent ''watermark_loaded'', HttpGet (since_param env w) 500}"
    and "staging w1 = staging w" and "bronze w1 = bronze w"
    and "lookup_watermark (ingestion_state w1) source_name
           = lookup_watermark (ingestion_state w) source_name"
  using assms
  by (auto simp: steps_1_4_def create_pipeline_run_def ensure_ingestion_state_def
      get_watermark_def fetch_api_records_def prog_simps lookup_ensure lookup_snoc_None
      since_param_def Let_def case_option_map
      split: option.splits sum.splits if_splits)

lemma step_5_Inr:
  assumes "step_5 env rid records w = (Inr u, w1)"
  shows "trace w1 = trace w @ [WriteBronzeJsonl (today env) rid, LogEvent ''bronze_written'']"
    and "staging w1 = staging w" and "ingestion_state w1 = ingestion_state w"
    and "pipeline_runs w1 = pipeline_runs w"
    and "bronze w1 = write_file (today env, rid) (map (json_dumps env) records) (bronze w)"
  using assms
  by (auto simp: step_5_def write_bronze_jsonl_def prog_simps Let_def split: option.splits)

lemma step_5_Inl:
  assumes "step_5 env rid records w = (Inl e, w1)"
  shows "trace w1 = trace w @ [WriteBronzeJsonl (today env) rid]"
    and "staging w1 = staging w" and "ingestion_state w1 = ingestion_state w"
    and "pipeline_runs w1 = pipeline_runs w" and "bronze w1 = bronze w"
  using assms
  by (auto simp: step_5_def write_bronze_jsonl_def prog_simps Let_def split: option.splits)

lemma build_rows_length:
  "build_rows fiso rs acc = Inr rows \<Longrightarrow> length rows = length acc + length rs"
  by (drule build_rows_Inr) simp

lemma step_6_Inr:
  assumes "step_6 env records w = (Inr rc, w1)"
  shows "rc = length records"
    and "trace w1 = trace w @ (if records = [] then [] else [ExecuteMany (length records)])
           @ [LogEvent ''staging_upserted'']"
    and "staging w1 = (if records = [] then staging w
           else executemany (staging w) (map (parsed (fromisoformat env)) records))"
    and "ingestion_state w1 = ingestion_state w"
    and "pipeline_runs w1 = pipeline_runs w" and "bronze w1 = bronze w"
proof -
  from assms obtain w' where u: "upsert_staging env records w = (Inr rc, w')"
    and w1: "w1 = emit (LogEvent ''staging_upserted'') w'"
    by (auto simp: step_6_def bind_Inr log_event_apply ret_apply)
  have all: "rc = length records \<and>
    trace w1 =
    trace w @ (if records = [] then [] else [ExecuteMany (length records)]) @
    [LogEvent ''staging_upserted''] \<and>
    staging w1 =
    (if records = [] then staging w
     else executemany (staging w) (map (parsed (fromisoformat env)) records)) \<and>
    ingestion_state w1 = ingestion_state w \<and>
    pipeline_runs w1 = pipeline_runs w \<and> bronze w1 = bronze w"
  proof (cases "records = []")
    case True
    with u w1 show ?thesis
      by (auto simp: upsert_staging_def ret_apply)
  next
    case False
    from upsert_staging_Inr[OF u False] w1 False show ?thesis
      by (simp add: emit_def)
  qed
  from all show "rc = length records"
    and "trace w1 = trace w @ (if records = [] then [] else [ExecuteMany (length records)])
           @ [LogEvent ''staging_upserted'']"
    and "staging w1 = (if records = [] then staging w
           else executemany (staging w) (map (parsed (fromisoformat env)) records))"
    and "ingestion_state w1 = ingestion_state w"
    and "pipeline_runs w1 = pipeline_runs w" and "bronze w1 = bronze w"
    by simp_all
qed

lemma step_6_Inl:
  assumes "step_6 env records w = (Inl e, w1)"
  shows "trace w1 = trace w \<or> trace w1 = trace w @ [ExecuteMany (length records)]"
    and "staging w1 = staging w" and "ingestion_state w1 = ingestion_state w"
    and "pipeline_runs w1 = pipeline_runs w" and "bronze w1 = bronze w"
  using assms
  by (auto simp: step_6_def upsert_staging_def prog_simps
      dest: build_rows_length split: option.splits sum.splits if_splits)

lemma step_7_Inr:
  assumes "step_7 env records w = (Inr u, w1)"
  shows "passed (staging_checks (db_now env) (staging w))"
    and "staging w1 = staging w" and "pipeline_runs w1 = pipeline_runs w"
    and "bronze w1 = bronze w"
    and "\<exists>r. compute_new_watermark (fromisoformat env) records = Inr r
          \<and> trace w1 = trace w @ [RunStagingChecks, LogEvent ''quality_passed'']
               @ (case r of None \<Rightarrow> []
                  | Some wm \<Rightarrow> [SetWatermark source_name wm, LogEvent ''watermark_updated''])
          \<and> ingestion_state w1 =
               (case r of None \<Rightarrow> ingestion_state w | Some wm \<Rightarrow> update_watermark source_name wm (ingestion_state w))"
  using assms
  by (auto simp: step_7_def run_staging_checks_def set_watermark_def prog_simps update_watermark_def
      split: option.splits sum.splits if_splits)

lemma step_7_Inl:
  assumes "step_7 env records w = (Inl e, w1)"
  shows "staging w1 = staging w" and "pipeline_runs w1 = pipeline_runs w"
    and "bronze w1 = bronze w" and "ingestion_state w1 = ingestion_state w"
    and "trace w1 = trace w @ [RunStagingChecks]
       \<or> (\<not> passed (staging_checks (db_now env) (staging w))
           \<and> trace w1 = trace w @ [RunStagingChecks, LogEvent ''quality_failed'']
           \<and> e = RuntimeError (''Data quality checks failed: ''
                   @ join '' | '' (failures (staging_checks (db_now env) (staging w)))))
       \<or> (passed (staging_checks (db_now env) (staging w))
           \<and> trace w1 = trace w @ [RunStagingChecks, LogEvent ''quality_passed''])
       \<or> (passed (staging_checks (db_now env) (staging w))
           \<and> (\<exists>wm. trace w1 = trace w @ [RunStagingChecks, LogEvent ''quality_passed'',
                  SetWatermark source_name wm]))"
  using assms
  by (auto simp: step_7_def run_staging_checks_def set_watermark_def prog_simps
      split: option.splits sum.splits if_splits)

lemma step_8_Inr:
  assumes "step_8 env rid rc w = (Inr u, w1)"
  shows "trace w1 = trace w @ [FinishPipelineRun rid ''success'' (Some rc) None,
           LogEvent ''pipeline_success'']"
    and "staging w1 = staging w" and "ingestion_state w1 = ingestion_state w"
    and "bronze w1 = bronze w"
    and "pipeline_runs w1 = update_run rid ''success'' (Some rc) None (pipeline_runs w)"
  using assms
  by (auto simp: step_8_def finish_pipeline_run_def prog_simps update_run_def split: option.splits)

lemma step_8_Inl:
  assumes "step_8 env rid rc w = (Inl e, w1)"
  shows "trace w1 = trace w @ [FinishPipelineRun rid ''success'' (Some rc) None]"
    and "staging w1 = staging w" and "ingestion_state w1 = ingestion_state w"
    and "bronze w1 = bronze w" and "pipeline_runs w1 = pipeline_runs w"
  using assms
  by (auto simp: step_8_def finish_pipeline_run_def prog_simps split: option.splits)

lemma run_body_Inr:
  assumes "run_body env rid w = (Inr u, w')"
  obtains records w1 w2 rc w3 w4 where
    "steps_1_4 env rid w = (Inr records, w1)" "step_5 env rid records w1 = (Inr (), w2)"
    "step_6 env records w2 = (Inr rc, w3)" "step_7 env records w3 = (Inr (), w4)"
    "step_8 env rid rc w4 = (Inr u, w')"
  using assms unfolding run_body_steps bind_Inr by auto

lemma run_body_Inl:
  assumes "run_body env rid w = (Inl e, w')"
  obtains (fetch) "steps_1_4 env rid w = (Inl e, w')"
  | (archive) records w1 where "steps_1_4 env rid w = (Inr records, w1)"
      "step_5 env rid records w1 = (Inl e, w')"
  | (merge) records w1 w2 where "steps_1_4 env rid w = (Inr records, w1)"
      "step_5 env rid records w1 = (Inr (), w2)" "step_6 env records w2 = (Inl e, w')"
  | (gate) records w1 w2 rc w3 where "steps_1_4 env rid w = (Inr records, w1)"
      "step_5 env rid records w1 = (Inr (), w2)" "step_6 env records w2 = (Inr rc, w3)"
      "step_7 env records w3 = (Inl e, w')"
  | (finish) records w1 w2 rc w3 w4 where "steps_1_4 env rid w = (Inr records, w1)"
      "step_5 env rid records w1 = (Inr (), w2)" "step_6 env records w2 = (Inr rc, w3)"
      "step_7 env records w3 = (Inr (), w4)" "step_8 env rid rc w4 = (Inl e, w')"
  using assms unfolding run_body_steps bind_Inr bind_Inl by auto

lemma try_pass_apply: "try_pass m w = (Inr (), snd (m w))"
  by (simp add: try_pass_def split: prod.splits)

lemma finish_snd:
  "snd (finish_pipeline_run env rid st rc msg w) =
     emit (FinishPipelineRun rid st rc msg) w
       \<lparr>pipeline_runs :=
          (case fault env (FinishPipelineRun rid st rc msg) of
             None \<Rightarrow> update_run rid st rc msg (pipeline_runs w)
           | Some e2 \<Rightarrow> pipeline_runs w)\<rparr>"
  by (simp add: finish_pipeline_run_def effect_def bind_def modify_def update_run_def emit_def
      split: option.splits)

lemma main_connect_fails:
  "fault env DbConnect = Some e \<Longrightarrow> main env w = (Inl e, connected w)"
  by (simp add: main_def get_db_conn_def prog_simps connected_def Let_def)

lemma main_body_ok:
  "fault env DbConnect = None \<Longrightarrow> run_body env (uuid4 env) (connected w) = (Inr u, w1) \<Longrightarrow>
   main env w = (Inr u, emit ConnClose w1)"
  by (simp add: main_def get_db_conn_def prog_simps connected_def try_finally_def
      try_except_def Let_def)

lemma main_body_fails:
  "fault env DbConnect = None \<Longrightarrow> run_body env (uuid4 env) (connected w) = (Inl e, w1) \<Longrightarrow>
   main env w =
     (Inl e, emit ConnClose (emit (LogEvent ''pipeline_failed'')
        (emit (FinishPipelineRun (uuid4 env) ''failed'' None (Some (str_of e))) w1
          \<lparr>pipeline_runs :=
             (case fault env (FinishPipelineRun (uuid4 env) ''failed'' None (Some (str_of e))) of
                None \<Rightarrow> update_run (uuid4 env) ''failed'' None (Some (str_of e)) (pipeline_runs w1)
              | Some e2 \<Rightarrow> pipeline_runs w1)\<rparr>)))"
  by (simp add: main_def get_db_conn_def prog_simps connected_def try_finally_def
      try_except_def Let_def bind_def[of "try_pass _"] try_pass_apply finish_snd)


lemma steps_1_4_traces:
  assumes "steps_1_4 env rid w = (Inl e, w1)"
  shows "trace w1 = trace w @ [CreatePipelineRun rid pipeline_name_const]
       \<or> trace w1 = trace w @ [CreatePipelineRun rid pipeline_name_const,
            EnsureIngestionState source_name]
       \<or> trace w1 = trace w @ [CreatePipelineRun rid pipeline_name_const,
            EnsureIngestionState source_name, GetWatermark source_name]
       \<or> trace w1 = trace w @ [CreatePipelineRun rid pipeline_name_const,
            EnsureIngestionState source_name, GetWatermark source_name,
            LogEvent ''watermark_loaded'', HttpGet (since_param env w) 500]"
  using assms
  by (auto simp: steps_1_4_def create_pipeline_run_def ensure_ingestion_state_def
      get_watermark_def fetch_api_records_def prog_simps lookup_ensure lookup_snoc_None
      since_param_def Let_def case_option_map
      split: option.splits sum.splits if_splits)

lemma connected_fields [simp]:
  "trace (connected w) = trace w @ [LogEvent ''pipeline_start'', DbConnect]"
  "staging (connected w) = staging w"
  "ingestion_state (connected w) = ingestion_state w"
  "pipeline_runs (connected w) = pipeline_runs w"
  "bronze (connected w) = bronze w"
  by (simp_all add: connected_def)

lemma fetched_connected [simp]: "fetched env (connected w) = fetched env w"
  and since_param_connected [simp]: "since_param env (connected w) = since_param env w"
  by (simp_all add: fetched_def since_param_def)

lemma main_handler:
  assumes "fault env DbConnect = None"
    and "run_body env (uuid4 env) (connected w) = (Inl e, w1)"
  shows "fst (main env w) = Inl e
    \<and> trace (snd (main env w)) =
        trace w1 @ [FinishPipelineRun (uuid4 env) ''failed'' None (Some (str_of e)),
                    LogEvent ''pipeline_failed'', ConnClose]
    \<and> pipeline_runs (snd (main env w)) =
        (case fault env (FinishPipelineRun (uuid4 env) ''failed'' None (Some (str_of e))) of
           None \<Rightarrow> update_run (uuid4 env) ''failed'' None (Some (str_of e)) (pipeline_runs w1)
         | Some secondary \<Rightarrow> pipeline_runs w1)
    \<and> staging (snd (main env w)) = staging w1
    \<and> ingestion_state (snd (main env w)) = ingestion_state w1
    \<and> bronze (snd (main env w)) = bronze w1"
  unfolding main_body_fails[OF assms] by (simp add: emit_def)






lemmas run_defs = main_def run_body_def create_pipeline_run_def ensure_ingestion_state_def
  get_watermark_def fetch_api_records_def write_bronze_jsonl_def upsert_staging_def
  run_staging_checks_def set_watermark_def finish_pipeline_run_def get_db_conn_def
  try_finally_def try_except_def prog_simps bind_def[of "try_pass _"]
  try_pass_apply finish_snd Let_def connected_def emit_def

lemmas example_defs2 = example_defs outage_env_def stale_world_def source_name_def
  pipeline_name_const_def new_run_def update_run_def update_watermark_def
  lookup_watermark_def write_file_def

text \<open>
  C7. Let a run start with an empty trace and let the steps inside the \<open>try\<close> block
  raise \<open>e\<close>, leaving the world \<open>w1\<close>. Then \<open>main\<close> raises that same \<open>e\<close>, whatever
  happens in the handler. The handler makes exactly one attempt in the whole run to
  record the run as failed, with the text of \<open>e\<close>, then logs the failure and closes the
  connection. When the attempt itself raises, its exception is dropped: the run row
  stays as it was, and the result is still \<open>e\<close>.
\<close>

theorem main_reraises_original:
  assumes "trace w = []"
    and "fault env DbConnect = None"
    and "run_body env (uuid4 env) (connected w) = (Inl e, w1)"
  shows "fst (main env w) = Inl e
    \<and> trace (snd (main env w)) =
        trace w1 @ [FinishPipelineRun (uuid4 env) ''failed'' None (Some (str_of e)),
                    LogEvent ''pipeline_failed'', ConnClose]
    \<and> length (filter is_record_failed (trace (snd (main env w)))) = 1
    \<and> pipeline_runs (snd (main env w)) =
        (case fault env (FinishPipelineRun (uuid4 env) ''failed'' None (Some (str_of e))) of
           None \<Rightarrow> update_run (uuid4 env) ''failed'' None (Some (str_of e)) (pipeline_runs w1)
         | Some secondary \<Rightarrow> pipeline_runs w1)
    \<and> staging (snd (main env w)) = staging w1
    \<and> ingestion_state (snd (main env w)) = ingestion_state w1
    \<and> bronze (snd (main env w)) = bronze w1"
proof -
  note m = main_handler[OF assms(2) assms(3)]
  have none: "filter is_record_failed (trace w1) = []"
    using assms(3)
  proof (cases rule: run_body_Inl)
    case fetch
    from steps_1_4_traces[OF fetch] show ?thesis
      by (auto simp: assms(1) is_record_failed_def)
  next
    case (archive records wa)
    show ?thesis
      by (simp add: step_5_Inl(1)[OF archive(2)] steps_1_4_Inr(2)[OF archive(1)] assms(1)
          is_record_failed_def)
  next
    case (merge records wa wb)
    from step_6_Inl(1)[OF merge(3)] show ?thesis
      by (auto simp: step_5_Inr(1)[OF merge(2)] steps_1_4_Inr(2)[OF merge(1)] assms(1)
          is_record_failed_def)
  next
    case (gate records wa wb rc wc)
    from step_7_Inl(5)[OF gate(4)] show ?thesis
      by (auto simp: step_6_Inr(2)[OF gate(3)] step_5_Inr(1)[OF gate(2)]
          steps_1_4_Inr(2)[OF gate(1)] assms(1) is_record_failed_def)
  next
    case (finish records wa wb rc wc wd)
    from step_7_Inr(5)[OF finish(4)] obtain x where
      t7: "trace wd = trace wc @ [RunStagingChecks, LogEvent ''quality_passed'']
              @ (case x of None \<Rightarrow> []
                 | Some wm \<Rightarrow> [SetWatermark source_name wm, LogEvent ''watermark_updated''])"
      by blast
    show ?thesis
      by (simp add: step_8_Inl(1)[OF finish(5)] t7 step_6_Inr(2)[OF finish(3)]
          step_5_Inr(1)[OF finish(2)] steps_1_4_Inr(2)[OF finish(1)] assms(1)
          is_record_failed_def split: option.splits)
  qed
  from m none show ?thesis
    by (simp add: is_record_failed_def)
qed

lemma outage_body:
  "run_body outage_env (uuid4 outage_env) (connected empty_world) =
     (Inl (HTTPError ''503 Server Error''),
      snd (run_body outage_env (uuid4 outage_env) (connected empty_world)))"
  by (simp add: run_defs example_defs2)

theorem main_reraises_original_witness:
  "trace empty_world = []
   \<and> fault outage_env DbConnect = None
   \<and> fst (run_body outage_env (uuid4 outage_env) (connected empty_world))
       = Inl (HTTPError ''503 Server Error'')
   \<and> fault outage_env (FinishPipelineRun ''run-1'' ''failed'' None (Some ''503 Server Error''))
       = Some (OperationalError ''connection lost'')
   \<and> fst (main outage_env empty_world) = Inl (HTTPError ''503 Server Error'')
   \<and> length (filter is_record_failed (trace (snd (main outage_env empty_world)))) = 1
   \<and> pipeline_runs (snd (main outage_env empty_world))
       = [new_run ''run-1'' ''ingest_api_loan_applications'']"
proof -
  have t: "trace empty_world = []"
    by (simp add: empty_world_def)
  have c: "fault outage_env DbConnect = None"
    by (simp add: outage_env_def)
  from main_reraises_original [OF t c outage_body] show ?thesis
    by (simp add: run_defs example_defs2)
qed


lemmas check_defs = replace_Z_def executemany_def upsert_row_def
      conflicts_def row_of_def staging_checks_def checks_def select_count_def
      null_required_fields_def loan_amount_positive_def annual_income_positive_def
      submitted_at_future_guard_def five_minutes_def failure_line_def str_nat.simps
      digit_char_def




lemma max_from_fold: "max_from m xs = fold max xs m"
  by (induction xs arbitrary: m) (simp_all add: max_def)

lemma max_from_Max: "max_from m xs = Max (set (m # xs))"
  unfolding max_from_fold by (rule Max.set_eq_fold[symmetric])

lemma parse_all_list_all2:
  "parse_all fiso rs = Inr ts \<Longrightarrow>
   list_all2 (\<lambda>r t. fiso (replace_Z (r_submitted_at r)) = Inr t) rs ts"
  by (induction rs arbitrary: ts) (auto split: sum.splits)

lemma compute_new_watermark_Inr:
  assumes "records \<noteq> []" "compute_new_watermark fiso records = Inr r"
  shows "\<exists>ts. parse_all fiso records = Inr ts \<and> ts \<noteq> [] \<and> r = Some (Max (set ts))"
  using assms
  by (auto simp: compute_new_watermark_def max_from_Max split: sum.splits list.splits)

lemma compute_new_watermark_Nil: "compute_new_watermark fiso [] = Inr None"
  by (simp add: compute_new_watermark_def)

lemma lookup_update:
  "s \<in> fst ` set t \<Longrightarrow> lookup_watermark (update_watermark s wm t) s = Some wm"
  by (induction t) (auto simp: lookup_watermark_def update_watermark_def)

lemma main_Inr:
  assumes "main env w = (Inr u, w')"
  obtains w1 where "fault env DbConnect = None"
    "run_body env (uuid4 env) (connected w) = (Inr u, w1)" "w' = emit ConnClose w1"
proof (cases "fault env DbConnect")
  case (Some e)
  with assms main_connect_fails[OF Some, of w] show ?thesis by simp
next
  case None
  obtain r wb where body: "run_body env (uuid4 env) (connected w) = (r, wb)"
    by (cases "run_body env (uuid4 env) (connected w)")
  show ?thesis
  proof (cases r)
    case (Inl e)
    with assms main_body_fails[OF None body[unfolded Inl]] show ?thesis by simp
  next
    case (Inr v)
    with assms main_body_ok[OF None body[unfolded Inr]] that[OF None] body show ?thesis
      by simp
  qed
qed

lemmas fraction_defs = fraction_env_def fraction_world_def fraction_fromisoformat_def
  fraction_strftime_def rec_half_def followup_env_def resumed_world_def

lemma fraction_eval:
  "trace fraction_world = []"
  "lookup_watermark (ingestion_state fraction_world) source_name = Some 1771927200900000"
  "since_param fraction_env fraction_world = Some ''2026-02-24T10:00:00Z''"
  "fromisoformat fraction_env (replace_Z ''2026-02-24T10:00:00Z'') = Inr 1771927200000000"
  "fetched fraction_env fraction_world = Inr [rec_half]"
  "fromisoformat fraction_env (replace_Z (r_submitted_at rec_half)) = Inr 1771927200500000"
  "fst (main fraction_env fraction_world) = Inr ()"
  "lookup_watermark (ingestion_state (snd (main fraction_env fraction_world))) source_name
     = Some 1771927200500000"
  by (simp_all add: run_defs example_defs2 check_defs fetched_def since_param_def
      compute_new_watermark_def fraction_defs)

text \<open>
  C3, as the claim states it, fails. The stored watermark is 10:00:00.9; the request
  carries whole seconds only, so the \<open>since\<close> it sends reads 10:00:00. The source
  returns one record, of 10:00:00.5, which is strictly after the requested \<open>since\<close>.
  The run succeeds and writes 10:00:00.5: the watermark is now less than the prior one.
\<close>

theorem watermark_regression_counterexample:
  "trace fraction_world = []
   \<and> fst (main fraction_env fraction_world) = Inr ()
   \<and> lookup_watermark (ingestion_state fraction_world) source_name = Some 1771927200900000
   \<and> since_param fraction_env fraction_world = Some ''2026-02-24T10:00:00Z''
   \<and> fromisoformat fraction_env (replace_Z ''2026-02-24T10:00:00Z'') = Inr 1771927200000000
   \<and> fetched fraction_env fraction_world = Inr [rec_half]
   \<and> fromisoformat fraction_env (replace_Z (r_submitted_at rec_half)) = Inr 1771927200500000
   \<and> (1771927200000000 :: timestamp) < 1771927200500000
   \<and> lookup_watermark (ingestion_state (snd (main fraction_env fraction_world))) source_name
       = Some 1771927200500000
   \<and> the (lookup_watermark (ingestion_state (snd (main fraction_env fraction_world))) source_name)
       < the (lookup_watermark (ingestion_state fraction_world) source_name)"
  by (simp add: fraction_eval)

text \<open>
  C3, amended. Take a run, started with an empty trace, that returns normally, and let
  \<open>records\<close> be what it fetched. If \<open>records\<close> is empty, no \<open>SetWatermark\<close> statement is
  issued and the watermark is the one from before. Otherwise every \<open>submitted_at\<close>
  parses, the run issues \<open>SetWatermark\<close> with the largest of the parsed timestamps, and
  that is the watermark read back afterwards. Let there be a prior watermark; the run
  requests the text \<open>strftime\<close> makes of it, and \<open>s\<close> is the instant that text denotes
  (read the way every timestamp of this program is read). When every fetched timestamp
  is strictly after \<open>s\<close>, the new watermark is strictly after \<open>s\<close>; so it is not less than
  the prior watermark when the text denotes the prior watermark itself, which is when the
  prior watermark has no fraction of a second.
\<close>

theorem watermark_advances_to_max:
  assumes "trace w = []"
    and "main env w = (Inr u, w')"
    and "fetched env w = Inr records"
  shows "(records = [] \<longrightarrow>
           lookup_watermark (ingestion_state w') source_name
             = lookup_watermark (ingestion_state w) source_name
           \<and> (\<forall>ev \<in> set (trace w'). \<not> is_advance ev))
    \<and> (records \<noteq> [] \<longrightarrow>
         (\<exists>ts. list_all2 (\<lambda>r t. fromisoformat env (replace_Z (r_submitted_at r)) = Inr t)
                 records ts
            \<and> lookup_watermark (ingestion_state w') source_name = Some (Max (set ts))
            \<and> SetWatermark source_name (Max (set ts)) \<in> set (trace w')
            \<and> (\<forall>prior s. lookup_watermark (ingestion_state w) source_name = Some prior
                  \<and> fromisoformat env (replace_Z (strftime env prior)) = Inr s
                  \<and> (\<forall>t \<in> set ts. s < t)
                \<longrightarrow> HttpGet (Some (strftime env prior)) 500 \<in> set (trace w')
                    \<and> s < Max (set ts)
                    \<and> (s = prior \<longrightarrow> prior < Max (set ts)))))"
proof -
  from assms(2) obtain wb where c: "fault env DbConnect = None"
    and body: "run_body env (uuid4 env) (connected w) = (Inr u, wb)"
    and w': "w' = emit ConnClose wb"
    by (rule main_Inr)
  from body obtain recs w1 w2 rc w3 w4 where
    s: "steps_1_4 env (uuid4 env) (connected w) = (Inr recs, w1)"
       "step_5 env (uuid4 env) recs w1 = (Inr (), w2)"
       "step_6 env recs w2 = (Inr rc, w3)" "step_7 env recs w3 = (Inr (), w4)"
       "step_8 env (uuid4 env) rc w4 = (Inr u, wb)"
    by (rule run_body_Inr)
  from steps_1_4_Inr(1)[OF s(1)] assms(3) have recs: "recs = records" by simp
  note s = s[unfolded recs]
  from step_7_Inr(5)[OF s(4)] obtain x where
    x: "compute_new_watermark (fromisoformat env) records = Inr x"
    and t4: "trace w4 = trace w3 @ [RunStagingChecks, LogEvent ''quality_passed'']
              @ (case x of None \<Rightarrow> []
                 | Some wm \<Rightarrow> [SetWatermark source_name wm, LogEvent ''watermark_updated''])"
    and i4: "ingestion_state w4 =
               (case x of None \<Rightarrow> ingestion_state w3
                | Some wm \<Rightarrow> update_watermark source_name wm (ingestion_state w3))"
    by blast
  have i3: "ingestion_state w3 = ingestion_state w1"
    by (simp add: step_6_Inr(4)[OF s(3)] step_5_Inr(3)[OF s(2)])
  have tr: "trace w' = trace w3 @ [RunStagingChecks, LogEvent ''quality_passed'']
              @ (case x of None \<Rightarrow> []
                 | Some wm \<Rightarrow> [SetWatermark source_name wm, LogEvent ''watermark_updated''])
              @ [FinishPipelineRun (uuid4 env) ''success'' (Some rc) None,
                 LogEvent ''pipeline_success'', ConnClose]"
    by (simp add: w' step_8_Inr(1)[OF s(5)] t4)
  have t3: "\<forall>ev \<in> set (trace w3). \<not> is_advance ev"
    by (simp add: step_6_Inr(2)[OF s(3)] step_5_Inr(1)[OF s(2)] steps_1_4_Inr(2)[OF s(1)]
        assms(1) is_advance_def)
  have hg: "HttpGet (since_param env w) 500 \<in> set (trace w3)"
    by (simp add: step_6_Inr(2)[OF s(3)] step_5_Inr(1)[OF s(2)] steps_1_4_Inr(2)[OF s(1)]
        assms(1))
  have iw: "ingestion_state w' = ingestion_state w4"
    by (simp add: w' step_8_Inr(3)[OF s(5)])
  show ?thesis
  proof (cases "records = []")
    case True
    with x have "x = None" by (simp add: compute_new_watermark_Nil)
    with True t3 show ?thesis
      by (simp add: tr iw i4 i3 steps_1_4_Inr(5)[OF s(1)] is_advance_def)
  next
    case False
    from compute_new_watermark_Inr[OF False x] obtain ts where
      ts: "parse_all (fromisoformat env) records = Inr ts" "ts \<noteq> []" "x = Some (Max (set ts))"
      by blast
    have mx: "Max (set ts) \<in> set ts" using ts(2) by simp
    have sent: "HttpGet (since_param env w) 500 \<in> set (trace w')"
      using hg by (simp add: tr)
    have mono: "\<forall>prior s. lookup_watermark (ingestion_state w) source_name = Some prior
                  \<and> fromisoformat env (replace_Z (strftime env prior)) = Inr s
                  \<and> (\<forall>t \<in> set ts. s < t)
                \<longrightarrow> HttpGet (Some (strftime env prior)) 500 \<in> set (trace w')
                    \<and> s < Max (set ts)
                    \<and> (s = prior \<longrightarrow> prior < Max (set ts))"
      using mx sent by (auto simp: since_param_def)
    have wm: "lookup_watermark (ingestion_state w') source_name = Some (Max (set ts))"
      by (simp add: iw i4 i3 ts(3) lookup_update steps_1_4_Inr(6)[OF s(1)])
    have sw: "SetWatermark source_name (Max (set ts)) \<in> set (trace w')"
      by (simp add: tr ts(3))
    from False parse_all_list_all2[OF ts(1)] wm sw mono show ?thesis
      by blast
  qed
qed

lemma followup_eval:
  "trace resumed_world = []"
  "fetched followup_env resumed_world = Inr [rec2, rec3]"
  "fst (main followup_env resumed_world) = Inr ()"
  "lookup_watermark (ingestion_state resumed_world) source_name = Some 1771927260000000"
  "fromisoformat followup_env (replace_Z (strftime followup_env 1771927260000000))
     = Inr 1771927260000000"
  "fromisoformat followup_env (replace_Z (r_submitted_at rec2)) = Inr 1771927320000000"
  "fromisoformat followup_env (replace_Z (r_submitted_at rec3)) = Inr 1771927380000000"
  "lookup_watermark (ingestion_state (snd (main followup_env resumed_world))) source_name
     = Some 1771927380000000"
  "HttpGet (Some ''2026-02-24T10:01:00Z'') 500
     \<in> set (trace (snd (main followup_env resumed_world)))"
  "SetWatermark source_name 1771927380000000
     \<in> set (trace (snd (main followup_env resumed_world)))"
  by (simp_all add: run_defs example_defs2 check_defs fetched_def since_param_def
      compute_new_watermark_def fraction_defs)

lemma followup_main:
  "main followup_env resumed_world = (Inr (), snd (main followup_env resumed_world))"
  using followup_eval(3) by (cases "main followup_env resumed_world") simp

theorem watermark_advances_to_max_witness:
  "trace resumed_world = []
   \<and> fst (main followup_env resumed_world) = Inr ()
   \<and> fetched followup_env resumed_world = Inr [rec2, rec3]
   \<and> lookup_watermark (ingestion_state resumed_world) source_name = Some 1771927260000000
   \<and> fromisoformat followup_env (replace_Z (strftime followup_env 1771927260000000))
       = Inr 1771927260000000
   \<and> list_all2 (\<lambda>r t. fromisoformat followup_env (replace_Z (r_submitted_at r)) = Inr t)
        [rec2, rec3] [1771927320000000, 1771927380000000]
   \<and> list_all (\<lambda>t. 1771927260000000 < t) [1771927320000000, 1771927380000000 :: timestamp]
   \<and> HttpGet (Some ''2026-02-24T10:01:00Z'') 500
       \<in> set (trace (snd (main followup_env resumed_world)))
   \<and> SetWatermark source_name 1771927380000000
       \<in> set (trace (snd (main followup_env resumed_world)))
   \<and> lookup_watermark (ingestion_state (snd (main followup_env resumed_world))) source_name
       = Some 1771927380000000
   \<and> (1771927260000000 :: timestamp) < 1771927380000000"
  using watermark_advances_to_max [OF followup_eval(1) followup_main followup_eval(2)] followup_eval
  by simp

lemma map_of_write_file: "map_of (write_file p c fs) p = Some c"
  by (simp add: write_file_def)

lemma precedes_witnessed: "precedes A B tr \<Longrightarrow> list_ex B tr \<Longrightarrow> list_ex A tr"
  by (induction tr) (auto split: if_splits)

lemmas order_defs = well_ordered_def is_archive_def is_merge_def is_gate_def is_advance_def
  is_log_def

text \<open>
  C4. In every run started with an empty trace, whatever the outside does, the trace is
  well ordered: a merge statement comes only after the archive is written, the gate is
  evaluated only after the merge has returned, the watermark is updated only after the
  gate has passed, and no archive write follows a merge, no merge follows the gate, no
  gate evaluation follows a watermark update. Hence a merge statement in the trace
  implies that the archive was written before it; and once the archive is written, the
  archive object of this run holds one line per fetched record, in order, whatever
  happens afterwards (in particular when the merge fails).
\<close>

theorem side_effects_ordered:
  assumes "trace w = []"
  shows "well_ordered (trace (snd (main env w)))
    \<and> (list_ex is_merge (trace (snd (main env w)))
         \<longrightarrow> LogEvent ''bronze_written'' \<in> set (trace (snd (main env w))))
    \<and> (\<forall>records. fetched env w = Inr records
           \<and> LogEvent ''bronze_written'' \<in> set (trace (snd (main env w)))
         \<longrightarrow> map_of (bronze (snd (main env w))) (today env, uuid4 env)
               = Some (map (json_dumps env) records))"
proof -
  have main: "well_ordered (trace (snd (main env w)))
    \<and> (\<forall>records. fetched env w = Inr records
           \<and> LogEvent ''bronze_written'' \<in> set (trace (snd (main env w)))
         \<longrightarrow> map_of (bronze (snd (main env w))) (today env, uuid4 env)
               = Some (map (json_dumps env) records))"
  proof (cases "fault env DbConnect")
    case (Some e)
    show ?thesis
      unfolding main_connect_fails[OF Some] by (simp add: assms order_defs)
  next
    case None
    obtain r wb where body: "run_body env (uuid4 env) (connected w) = (r, wb)"
      by (cases "run_body env (uuid4 env) (connected w)")
    show ?thesis
    proof (cases r)
      case (Inr u)
      from body[unfolded Inr] obtain records w1 w2 rc w3 w4 where
        s: "steps_1_4 env (uuid4 env) (connected w) = (Inr records, w1)"
           "step_5 env (uuid4 env) records w1 = (Inr (), w2)"
           "step_6 env records w2 = (Inr rc, w3)" "step_7 env records w3 = (Inr (), w4)"
           "step_8 env (uuid4 env) rc w4 = (Inr u, wb)"
        by (rule run_body_Inr)
      from step_7_Inr(5)[OF s(4)] obtain x where
        t7: "trace w4 = trace w3 @ [RunStagingChecks, LogEvent ''quality_passed'']
                @ (case x of None \<Rightarrow> []
                   | Some wm \<Rightarrow> [SetWatermark source_name wm, LogEvent ''watermark_updated''])"
        by blast
      have br: "bronze wb = write_file (today env, uuid4 env) (map (json_dumps env) records)
                  (bronze w1)"
        by (simp add: step_8_Inr(4)[OF s(5)] step_7_Inr(4)[OF s(4)] step_6_Inr(6)[OF s(3)]
            step_5_Inr(5)[OF s(2)])
      show ?thesis
        unfolding main_body_ok[OF None body[unfolded Inr]]
        using steps_1_4_Inr(1)[OF s(1)]
        by (auto simp: step_8_Inr(1)[OF s(5)] t7 step_6_Inr(2)[OF s(3)] step_5_Inr(1)[OF s(2)]
            steps_1_4_Inr(2)[OF s(1)] assms order_defs br map_of_write_file
            split: option.splits)
    next
      case (Inl e)
      note b = body[unfolded Inl]
      note m = main_handler[OF None b]
      from b show ?thesis
      proof (cases rule: run_body_Inl)
        case fetch
        from steps_1_4_traces[OF fetch] show ?thesis
          using m by (auto simp: assms order_defs)
      next
        case (archive records w1)
        show ?thesis
          using m by (simp add: step_5_Inl(1)[OF archive(2)] steps_1_4_Inr(2)[OF archive(1)]
              assms order_defs)
      next
        case (merge records w1 w2)
        have br: "bronze wb = write_file (today env, uuid4 env) (map (json_dumps env) records)
                    (bronze w1)"
          by (simp add: step_6_Inl(5)[OF merge(3)] step_5_Inr(5)[OF merge(2)])
        from step_6_Inl(1)[OF merge(3)] show ?thesis
          using m steps_1_4_Inr(1)[OF merge(1)]
          by (auto simp: step_5_Inr(1)[OF merge(2)] steps_1_4_Inr(2)[OF merge(1)]
              assms order_defs br map_of_write_file)
      next
        case (gate records w1 w2 rc w3)
        have br: "bronze wb = write_file (today env, uuid4 env) (map (json_dumps env) records)
                    (bronze w1)"
          by (simp add: step_7_Inl(3)[OF gate(4)] step_6_Inr(6)[OF gate(3)]
              step_5_Inr(5)[OF gate(2)])
        from step_7_Inl(5)[OF gate(4)] show ?thesis
          using m steps_1_4_Inr(1)[OF gate(1)]
          by (auto simp: step_6_Inr(2)[OF gate(3)] step_5_Inr(1)[OF gate(2)]
              steps_1_4_Inr(2)[OF gate(1)] assms order_defs br map_of_write_file)
      next
        case (finish records w1 w2 rc w3 w4)
        from step_7_Inr(5)[OF finish(4)] obtain x where
          t7: "trace w4 = trace w3 @ [RunStagingChecks, LogEvent ''quality_passed'']
                  @ (case x of None \<Rightarrow> []
                     | Some wm \<Rightarrow> [SetWatermark source_name wm, LogEvent ''watermark_updated''])"
          by blast
        have br: "bronze wb = write_file (today env, uuid4 env) (map (json_dumps env) records)
                    (bronze w1)"
          by (simp add: step_8_Inl(4)[OF finish(5)] step_7_Inr(4)[OF finish(4)]
              step_6_Inr(6)[OF finish(3)] step_5_Inr(5)[OF finish(2)])
        show ?thesis
          using m steps_1_4_Inr(1)[OF finish(1)]
          by (auto simp: step_8_Inl(1)[OF finish(5)] t7 step_6_Inr(2)[OF finish(3)]
              step_5_Inr(1)[OF finish(2)] steps_1_4_Inr(2)[OF finish(1)] assms order_defs br
              map_of_write_file split: option.splits)
      qed
    qed
  qed
  moreover have "list_ex is_merge (trace (snd (main env w)))
         \<longrightarrow> LogEvent ''bronze_written'' \<in> set (trace (snd (main env w)))"
    using main precedes_witnessed[of "is_log ''bronze_written''" is_merge "trace (snd (main env w))"]
    by (auto simp: well_ordered_def list_ex_iff is_log_def)
  ultimately show ?thesis by blast
qed


lemmas example_defs3 = example_defs2 quiet_env_def merge_fault_env_def

lemma merge_fault_eval:
  "trace empty_world = []"
  "fetched merge_fault_env empty_world = Inr [rec1, rec2, rec3]"
  "fst (main merge_fault_env empty_world) = Inl (OperationalError ''deadlock detected'')"
  "staging (snd (main merge_fault_env empty_world)) = []"
  "LogEvent ''bronze_written'' \<in> set (trace (snd (main merge_fault_env empty_world)))"
  "list_ex is_merge (trace (snd (main merge_fault_env empty_world)))"
  by (simp_all add: run_defs example_defs3 check_defs fetched_def since_param_def is_merge_def)

theorem side_effects_ordered_witness:
  "trace empty_world = []
   \<and> fetched merge_fault_env empty_world = Inr [rec1, rec2, rec3]
   \<and> fst (main merge_fault_env empty_world) = Inl (OperationalError ''deadlock detected'')
   \<and> staging (snd (main merge_fault_env empty_world)) = []
   \<and> list_ex is_merge (trace (snd (main merge_fault_env empty_world)))
   \<and> well_ordered (trace (snd (main merge_fault_env empty_world)))
   \<and> map_of (bronze (snd (main merge_fault_env empty_world)))
        (today merge_fault_env, uuid4 merge_fault_env)
       = Some (map (json_dumps merge_fault_env) [rec1, rec2, rec3])"
  using side_effects_ordered [OF merge_fault_eval(1), of merge_fault_env] merge_fault_eval
  by simp

text \<open>
  C2, as the claim states it, fails: the source answers with no record, staging holds a
  defective row from an earlier run, and the run archives, evaluates the gate and fails.
\<close>

theorem empty_fetch_counterexample:
  "fetched quiet_env stale_world = Inr []
   \<and> fst (main quiet_env stale_world) =
       Inl (RuntimeError ''Data quality checks failed: null_required_fields: 1 failing rows | loan_amount_positive: 1 failing rows'')
   \<and> map status (pipeline_runs (snd (main quiet_env stale_world))) = [''failed'']
   \<and> list_ex is_archive (trace (snd (main quiet_env stale_world)))
   \<and> list_ex is_gate (trace (snd (main quiet_env stale_world)))"
  by (simp add: run_defs example_defs3 check_defs fetched_def since_param_def is_archive_def
      is_gate_def)

text \<open>
  C2, amended. Take a run, started with an empty trace, whose fetch returns no record and
  in which no external operation raises. No step is skipped: the (empty) archive object
  is written, the merge returns without a database statement, and the gate is evaluated
  over the whole staging relation. Staging and the watermark are unchanged. When the gate
  passes, the run returns normally and is recorded \<open>success\<close> with row count 0; when it
  does not, the run raises the gate's error and is recorded \<open>failed\<close>.
\<close>

theorem empty_fetch_still_gated:
  assumes "trace w = []" and "fetched env w = Inr []" and "\<forall>ev. fault env ev = None"
  shows "staging (snd (main env w)) = staging w
    \<and> lookup_watermark (ingestion_state (snd (main env w))) source_name
        = lookup_watermark (ingestion_state w) source_name
    \<and> map_of (bronze (snd (main env w))) (today env, uuid4 env) = Some []
    \<and> trace (snd (main env w)) =
        [LogEvent ''pipeline_start'', DbConnect,
         CreatePipelineRun (uuid4 env) pipeline_name_const,
         EnsureIngestionState source_name, GetWatermark source_name,
         LogEvent ''watermark_loaded'', HttpGet (since_param env w) 500,
         LogEvent ''api_fetched'', WriteBronzeJsonl (today env) (uuid4 env),
         LogEvent ''bronze_written'', LogEvent ''staging_upserted'', RunStagingChecks]
        @ (if passed (staging_checks (db_now env) (staging w))
           then [LogEvent ''quality_passed'',
                 FinishPipelineRun (uuid4 env) ''success'' (Some 0) None,
                 LogEvent ''pipeline_success'', ConnClose]
           else [LogEvent ''quality_failed'',
                 FinishPipelineRun (uuid4 env) ''failed'' None
                   (Some (''Data quality checks failed: ''
                      @ join '' | '' (failures (staging_checks (db_now env) (staging w))))),
                 LogEvent ''pipeline_failed'', ConnClose])
    \<and> fst (main env w) =
        (if passed (staging_checks (db_now env) (staging w)) then Inr ()
         else Inl (RuntimeError (''Data quality checks failed: ''
                @ join '' | '' (failures (staging_checks (db_now env) (staging w))))))
    \<and> pipeline_runs (snd (main env w)) =
        (if passed (staging_checks (db_now env) (staging w))
         then update_run (uuid4 env) ''success'' (Some 0) None
                (pipeline_runs w @ [new_run (uuid4 env) pipeline_name_const])
         else update_run (uuid4 env) ''failed'' None
                (Some (''Data quality checks failed: ''
                   @ join '' | '' (failures (staging_checks (db_now env) (staging w)))))
                (pipeline_runs w @ [new_run (uuid4 env) pipeline_name_const]))"
proof -
  have f: "fault env ev = None" for ev using assms(3) by simp
  have h: "http_get env
      (map_option (strftime env) (lookup_watermark (ingestion_state w) source_name)) 500 = Inr []"
    using assms(2) by (simp add: fetched_def since_param_def)
  show ?thesis
    by (simp add: run_defs f h assms(1) case_option_map lookup_ensure lookup_snoc_None
        since_param_def compute_new_watermark_Nil map_of_write_file)
qed

lemma quiet_eval:
  "trace empty_world = []"
  "fetched quiet_env empty_world = Inr []"
  "\<forall>ev. fault quiet_env ev = None"
  "passed (staging_checks (db_now quiet_env) (staging empty_world))"
  by (simp_all add: example_defs3 check_defs fetched_def since_param_def)

theorem empty_fetch_still_gated_witness:
  "trace empty_world = []
   \<and> fetched quiet_env empty_world = Inr []
   \<and> (\<forall>ev. fault quiet_env ev = None)
   \<and> fst (main quiet_env empty_world) = Inr ()
   \<and> staging (snd (main quiet_env empty_world)) = staging empty_world
   \<and> map_of (bronze (snd (main quiet_env empty_world))) (today quiet_env, uuid4 quiet_env)
       = Some []
   \<and> list_ex is_gate (trace (snd (main quiet_env empty_world)))
   \<and> pipeline_runs (snd (main quiet_env empty_world)) =
       update_run (uuid4 quiet_env) ''success'' (Some 0) None
         (pipeline_runs empty_world @ [new_run (uuid4 quiet_env) pipeline_name_const])"
  using empty_fetch_still_gated [OF quiet_eval(1) quiet_eval(2) quiet_eval(3)] quiet_eval
  by (simp add: is_gate_def)

subsection \<open>The mock source API\<close>

lemmas api_defs = loan_applications_def replace_minute_def replace_hour_minute_def
  replace_second_microsecond_def dt_ge_def dt_key_def feb_env_def at_2026_02_def Let_def
  gen_loop.simps

text \<open>
  C8. The code does not return the last 60 minutes. With no \<open>since\<close>, the start is minute
  \<open>max(0, minute - 60)\<close> of the current hour, which is always minute 0, so the answer
  holds the minutes of the current hour that have passed: none at 12:00:30, and three
  (12:01, 12:02, 12:03) at 12:03:30, for a limit of 50.
\<close>

theorem default_window_is_current_hour:
  "loan_applications (feb_env (at_2026_02 24 12 0 30)) None 50 = Inr []
   \<and> map_sum id (map la_submitted_at)
        (loan_applications (feb_env (at_2026_02 24 12 3 30)) None 50)
       = Inr [at_2026_02 24 12 1 0, at_2026_02 24 12 2 0, at_2026_02 24 12 3 0]"
  by (simp add: api_defs fake_record_def)

lemma earlier_day_not_ge:
  assumes "(year c, month c, day c) < (year now, month now, day now)"
  shows "\<not> dt_ge c now"
  using assms by (auto simp: dt_ge_def dt_key_def)

lemma gen_loop_end_of_day:
  assumes "hour c = 23" "0 \<le> minute c" "minute c \<le> 59"
    and "(year c, month c, day c) < (year now, month now, day now)"
    and "int (length rs) + (59 - minute c) < int limit"
  shows "gen_loop env limit now c rs = Inl (ValueError ''hour must be in 0..23'')"
  using assms
proof (induction "nat (59 - minute c)" arbitrary: c rs)
  case 0
  then have m: "minute c = 59" by simp
  with 0 have l: "length rs < limit" by simp
  show ?case
    by (subst gen_loop.simps)
       (simp add: l m "0.prems"(1) replace_second_microsecond_def replace_hour_minute_def)
next
  case (Suc n)
  then have m: "minute c < 59" by simp
  from Suc.prems have l: "length rs < limit" by simp
  let ?c = "replace_second_microsecond c\<lparr>minute := minute c + 1\<rparr>"
  have ng: "\<not> dt_ge ?c now"
    by (rule earlier_day_not_ge) (use Suc.prems(4) in \<open>simp add: replace_second_microsecond_def\<close>)
  have rec: "gen_loop env limit now ?c (rs @ [fake_record env (length rs) ?c])
               = Inl (ValueError ''hour must be in 0..23'')"
  proof (rule Suc.hyps(1))
    show "n = nat (59 - minute ?c)" using Suc.hyps(2) by simp
    show "hour ?c = 23" using Suc.prems(1) by (simp add: replace_second_microsecond_def)
    show "0 \<le> minute ?c" using Suc.prems(2) by simp
    show "minute ?c \<le> 59" using m by simp
    show "(year ?c, month ?c, day ?c) < (year now, month now, day now)"
      using Suc.prems(4) by (simp add: replace_second_microsecond_def)
    show "int (length (rs @ [fake_record env (length rs) ?c])) + (59 - minute ?c) < int limit"
      using Suc.prems(5) by simp
  qed
  show ?case
    by (subst gen_loop.simps)
       (use l m ng rec Suc.prems(2) in
         \<open>simp add: replace_minute_def replace_second_microsecond_def Let_def\<close>)
qed

text \<open>
  C10. The handler is not total. Let \<open>since\<close> parse to a time in the last hour of a day
  (hour 23), let the clock be on a later day, and let the limit allow as many records as
  there are minutes left in that hour, plus one. Then the cursor reaches 23:59, the next
  step asks for hour 24, and the handler raises \<open>ValueError\<close> instead of returning a list.
\<close>

theorem handler_raises_at_end_of_day:
  assumes "iso_parse env (replace_Z s) = Inr start"
    and "hour start = 23" and "0 \<le> minute start" and "minute start \<le> 59"
    and "(year start, month start, day start)
           < (year (now_utc env), month (now_utc env), day (now_utc env))"
    and "60 - minute start \<le> int limit" and "limit \<le> 500"
  shows "loan_applications env (Some s) limit = Inl (ValueError ''hour must be in 0..23'')"
proof -
  let ?start = "if tzinfo start = None then start\<lparr>tzinfo := Some UTC\<rparr> else start"
  have "gen_loop env limit (now_utc env) ?start [] = Inl (ValueError ''hour must be in 0..23'')"
    by (rule gen_loop_end_of_day) (use assms in auto)
  moreover have "\<not> (limit < 1 \<or> 500 < limit)" using assms by auto
  ultimately show ?thesis
    using assms(1) by (simp add: loan_applications_def Let_def)
qed

theorem handler_raises_at_end_of_day_witness:
  "iso_parse (feb_env (at_2026_02 25 0 10 0)) (replace_Z ''2026-02-24T23:58:00Z'')
     = Inr (at_2026_02 24 23 58 0)
   \<and> hour (at_2026_02 24 23 58 0) = 23
   \<and> (year (at_2026_02 24 23 58 0), month (at_2026_02 24 23 58 0), day (at_2026_02 24 23 58 0))
       < (year (now_utc (feb_env (at_2026_02 25 0 10 0))),
          month (now_utc (feb_env (at_2026_02 25 0 10 0))),
          day (now_utc (feb_env (at_2026_02 25 0 10 0))))
   \<and> loan_applications (feb_env (at_2026_02 25 0 10 0)) (Some ''2026-02-24T23:58:00Z'') 50
       = Inl (ValueError ''hour must be in 0..23'')"
proof -
  have p: "iso_parse (feb_env (at_2026_02 25 0 10 0)) (replace_Z ''2026-02-24T23:58:00Z'')
     = Inr (at_2026_02 24 23 58 0)"
    by (simp add: feb_env_def replace_Z_def)
  have d: "(year (at_2026_02 24 23 58 0), month (at_2026_02 24 23 58 0), day (at_2026_02 24 23 58 0))
       < (year (now_utc (feb_env (at_2026_02 25 0 10 0))),
          month (now_utc (feb_env (at_2026_02 25 0 10 0))),
          day (now_utc (feb_env (at_2026_02 25 0 10 0))))"
    by (simp add: feb_env_def at_2026_02_def)
  from handler_raises_at_end_of_day [OF p _ _ _ d, of 50] p d show ?thesis
    by (simp add: at_2026_02_def)
qed

end
